theory Spec2Isabelle
  imports Complex_Main "HOL-Library.Sublist"
begin

section \<open>Python values and exceptions\<close>

text \<open>
  The values the module handles are what \<^verbatim>\<open>json.loads\<close> returns and what
  \<^verbatim>\<open>get_droplet\<close> returns besides (\<^verbatim>\<open>False\<close>): \<^verbatim>\<open>None\<close>, booleans, integers,
  strings, lists and dictionaries. A dictionary is an association list that names each key
  once. JSON numbers with a fraction are left out: the module reads no number, it only
  passes identifiers on.
\<close>

datatype pyval =
    PNone
  | PBool bool
  | PInt int
  | PStr string
  | PList "pyval list"
  | PDict "(string \<times> pyval) list"

text \<open>
  The exceptions that the module can raise. \<^verbatim>\<open>TimeoutError\<close> is the module's own class;
  its message names the droplet id, which the constructor keeps here.
  \<^verbatim>\<open>AttributeError\<close> keeps the attribute's name. \<^verbatim>\<open>IOError\<close> is what
  \<^verbatim>\<open>time.sleep\<close> raises on a negative argument (under Python 2, which the module is
  written for; \<^verbatim>\<open>ValueError\<close> under Python 3).
\<close>

datatype exn =
    KeyError string
  | TypeError
  | AttributeError string
  | ValueError
  | OverflowError
  | IOError
  | TimeoutError pyval

text \<open>Truth value of a Python value, as \<^verbatim>\<open>not x\<close> and \<^verbatim>\<open>if x:\<close> read it.\<close>

fun truthy :: "pyval \<Rightarrow> bool" where
  "truthy PNone = False"
| "truthy (PBool b) = b"
| "truthy (PInt n) = (n \<noteq> 0)"
| "truthy (PStr s) = (s \<noteq> [])"
| "truthy (PList xs) = (xs \<noteq> [])"
| "truthy (PDict kvs) = (kvs \<noteq> [])"

text \<open>
  \<^verbatim>\<open>v[k]\<close> for a string key: \<^verbatim>\<open>KeyError\<close> on a dictionary without the key,
  \<^verbatim>\<open>TypeError\<close> on everything that is not a dictionary.
\<close>

fun getitem :: "pyval \<Rightarrow> string \<Rightarrow> exn + pyval" where
  "getitem (PDict kvs) k = (case map_of kvs k of None \<Rightarrow> Inl (KeyError k) | Some v \<Rightarrow> Inr v)"
| "getitem v k = Inl TypeError"

text \<open>
  \<^verbatim>\<open>k in v\<close> for a string \<open>k\<close>: key membership in a dictionary, element membership in
  a list, substring test in a string, \<^verbatim>\<open>TypeError\<close> otherwise.
\<close>

fun contains :: "string \<Rightarrow> pyval \<Rightarrow> exn + bool" where
  "contains k (PDict kvs) = Inr (k \<in> set (map fst kvs))"
| "contains k (PList xs) = Inr (PStr k \<in> set xs)"
| "contains k (PStr s) = Inr (sublist k s)"
| "contains k v = Inl TypeError"

text \<open>
  \<^verbatim>\<open>for x in v\<close>: the elements of a list, the keys of a dictionary, the characters of a
  string, \<^verbatim>\<open>TypeError\<close> otherwise.
\<close>

fun iter :: "pyval \<Rightarrow> exn + pyval list" where
  "iter (PList xs) = Inr xs"
| "iter (PDict kvs) = Inr (map (\<lambda>kv. PStr (fst kv)) kvs)"
| "iter (PStr s) = Inr (map (\<lambda>c. PStr [c]) s)"
| "iter v = Inl TypeError"

section \<open>The world outside: API calls, the clock, the provider\<close>

text \<open>
  A request path is kept structured: \<open>Droplets\<close> is \<^verbatim>\<open>"droplets"\<close>, \<open>Droplet i\<close> is
  \<^verbatim>\<open>"droplets/{}".format(i)\<close> and \<open>DropletActions i\<close> is
  \<^verbatim>\<open>"droplets/{}/actions".format(i)\<close>. The base URL is the same on every call and is
  left out.
\<close>

datatype http_method = GET | PUT | POST | DELETE

datatype path = Droplets | Droplet pyval | DropletActions pyval

text \<open>
  What the module does to the outside, in order: an API call (method, path, data, headers)
  or a \<^verbatim>\<open>time.sleep\<close>.
\<close>

datatype event =
    Call http_method path pyval "(string \<times> string) list"
  | Sleep real

text \<open>
  The world is the clock that \<^verbatim>\<open>time.time()\<close> reads, in seconds, the events so far,
  oldest first, and the delays to come: by how many seconds the process is held up (by its
  own computation, by the scheduler) before each of its coming readings of the clock, and
  by nothing once the list has ended. Time passes during an API call, as long as the
  provider takes, during a sleep, as long as its argument says, and before a reading of the
  clock, as long as the delay says. What remains idealised: the clock never runs backwards,
  a sleep takes exactly its argument, and the clock's floating-point values are real numbers
  (the one place where the source's arithmetic can raise, the conversion of
  \<^verbatim>\<open>wait_timeout\<close> to a float, is \<open>int_to_float\<close> below).
\<close>

record world =
  clock :: real
  trace :: "event list"
  delays :: "real list"

text \<open>
  A text received over HTTP, as \<^verbatim>\<open>json.loads\<close> sees it: empty, a JSON document, or
  anything else.
\<close>

datatype wire_text = EmptyText | JsonText pyval | Garbage

text \<open>
  \<^verbatim>\<open>class Response\<close>: \<open>body\<close> is \<^verbatim>\<open>None\<close> when \<^verbatim>\<open>fetch_url\<close> returned no
  response object; \<open>info_body\<close> is \<^verbatim>\<open>info["body"]\<close> when \<^verbatim>\<open>info\<close> has that key.
\<close>

record response =
  body :: "wire_text option"
  info_body :: "wire_text option"
  status_code :: int

text \<open>
  The provider is the remote API. Given the calls so far, the latest last, and a time, it
  tells two things: \<open>took\<close>, how many seconds the latest call takes when it is issued at
  that time, and the response that the latest call gets when it is answered at that time.
\<close>

record answer = response +
  took :: real

type_synonym provider = "event list \<Rightarrow> real \<Rightarrow> answer"

text \<open>\<^verbatim>\<open>Response.json\<close>.\<close>

definition json :: "'a response_scheme \<Rightarrow> exn + pyval" where
  "json r =
     (case body r of
        Some (JsonText j) \<Rightarrow> Inr j
      | Some Garbage \<Rightarrow> Inr PNone
      | _ \<Rightarrow>
          (case info_body r of
             None \<Rightarrow> Inr PNone
           | Some (JsonText j) \<Rightarrow> Inr j
           | Some _ \<Rightarrow> Inl ValueError))"

text \<open>\<^verbatim>\<open>class Rest\<close>: the headers given to the constructor.\<close>

record rest =
  headers :: "(string \<times> string) list"

text \<open>
  \<^verbatim>\<open>Rest.send\<close>: the call is issued now, it takes the time the provider takes (never a
  negative time), and its response is the one the provider gives when the call completes.
\<close>

definition send :: "provider \<Rightarrow> rest \<Rightarrow> http_method \<Rightarrow> path \<Rightarrow> pyval \<Rightarrow> world \<Rightarrow> answer \<times> world" where
  "send p inst m pth d w =
     (let h = trace w @ [Call m pth d (headers inst)];
          t = clock w + max 0 (took (p h (clock w)))
      in (p h t, w\<lparr>clock := t, trace := h\<rparr>))"

definition get :: "provider \<Rightarrow> rest \<Rightarrow> path \<Rightarrow> world \<Rightarrow> answer \<times> world" where
  "get p inst pth w = send p inst GET pth PNone w"

definition put :: "provider \<Rightarrow> rest \<Rightarrow> path \<Rightarrow> pyval \<Rightarrow> world \<Rightarrow> answer \<times> world" where
  "put p inst pth d w = send p inst PUT pth d w"

definition post :: "provider \<Rightarrow> rest \<Rightarrow> path \<Rightarrow> pyval \<Rightarrow> world \<Rightarrow> answer \<times> world" where
  "post p inst pth d w = send p inst POST pth d w"

definition delete :: "provider \<Rightarrow> rest \<Rightarrow> path \<Rightarrow> world \<Rightarrow> answer \<times> world" where
  "delete p inst pth w = send p inst DELETE pth PNone w"

text \<open>
  \<^verbatim>\<open>time.time()\<close>: the process is held up by the next delay (never a negative time),
  then the clock is read.
\<close>

definition time_time :: "world \<Rightarrow> real \<times> world" where
  "time_time w =
     (case delays w of
        [] \<Rightarrow> (clock w, w)
      | d # ds \<Rightarrow> (clock w + max 0 d, w\<lparr>clock := clock w + max 0 d, delays := ds\<rparr>))"

text \<open>
  \<^verbatim>\<open>time.sleep(d)\<close>: a negative \<open>d\<close> is refused with \<^verbatim>\<open>IOError\<close>, before any time
  has passed.
\<close>

definition sleep :: "real \<Rightarrow> world \<Rightarrow> (exn + unit) \<times> world" where
  "sleep d w =
     (if d < 0 then (Inl IOError, w)
      else (Inr (), w\<lparr>clock := clock w + d, trace := trace w @ [Sleep d]\<rparr>))"

text \<open>
  The conversion of an integer to a float that \<^verbatim>\<open>time.time() + wait_timeout\<close> performs:
  \<^verbatim>\<open>OverflowError\<close> when the integer rounds to a magnitude beyond the largest double,
  otherwise the integer's value (the rounding of integers beyond 53 bits is not modelled).
\<close>

definition int_to_float :: "int \<Rightarrow> exn + real" where
  "int_to_float n =
     (if 2 ^ 1024 - 2 ^ 970 \<le> \<bar>n\<bar> then Inl OverflowError else Inr (real_of_int n))"

section \<open>Looking a droplet up\<close>

text \<open>The \<^verbatim>\<open>for\<close> loop of \<^verbatim>\<open>get_droplet\<close>; falling off its end returns \<^verbatim>\<open>False\<close>.\<close>

fun scan_names :: "pyval list \<Rightarrow> string \<Rightarrow> exn + pyval" where
  "scan_names [] n = Inr (PBool False)"
| "scan_names (droplet # ds) n =
     (case getitem droplet ''name'' of
        Inl e \<Rightarrow> Inl e
      | Inr v \<Rightarrow> if v = PStr n then Inr droplet else scan_names ds n)"

text \<open>
  \<^verbatim>\<open>get_droplet(inst, droplet_id=None, name=None)\<close>. The identifier is any Python value
  (\<^verbatim>\<open>core\<close> passes an integer or \<^verbatim>\<open>None\<close>, \<^verbatim>\<open>is_powered_on\<close> passes what the API
  sent); the name is a string or \<^verbatim>\<open>None\<close>.
\<close>

definition get_droplet ::
  "provider \<Rightarrow> rest \<Rightarrow> pyval \<Rightarrow> string option \<Rightarrow> world \<Rightarrow> (exn + pyval) \<times> world" where
  "get_droplet p inst did nm w =
     (if \<not> truthy did \<and> (nm = None \<or> nm = Some []) then (Inr (PBool False), w)
      else if truthy did then
        (case get p inst (Droplet did) w of
           (droplet, w1) \<Rightarrow>
             (case json droplet of
                Inl e \<Rightarrow> (Inl e, w1)
              | Inr j \<Rightarrow> (getitem j ''droplet'', w1)))
      else
        (case nm of
           None \<Rightarrow> (Inr (PBool False), w)
         | Some n \<Rightarrow>
             if n = [] then (Inr (PBool False), w)
             else
               (case get p inst Droplets w of
                  (droplets, w1) \<Rightarrow>
                    (case json droplets of
                       Inl e \<Rightarrow> (Inl e, w1)
                     | Inr j \<Rightarrow>
                         (case getitem j ''droplets'' of
                            Inl e \<Rightarrow> (Inl e, w1)
                          | Inr l \<Rightarrow>
                              (case iter l of
                                 Inl e \<Rightarrow> (Inl e, w1)
                               | Inr ds \<Rightarrow> (scan_names ds n, w1)))))))"

definition is_powered_on :: "provider \<Rightarrow> rest \<Rightarrow> pyval \<Rightarrow> world \<Rightarrow> (exn + bool) \<times> world" where
  "is_powered_on p inst did w =
     (case get_droplet p inst did None w of
        (Inl e, w1) \<Rightarrow> (Inl e, w1)
      | (Inr res, w1) \<Rightarrow>
          (case getitem res ''status'' of
             Inl e \<Rightarrow> (Inl e, w1)
           | Inr s \<Rightarrow> (Inr (s = PStr ''active''), w1)))"

definition power_on :: "provider \<Rightarrow> rest \<Rightarrow> pyval \<Rightarrow> world \<Rightarrow> world" where
  "power_on p inst did w =
     snd (post p inst (DropletActions did) (PDict [(''type'', PStr ''power_on'')]) w)"

section \<open>Waiting for the droplet to power on\<close>

text \<open>
  The \<^verbatim>\<open>while\<close> loop of \<^verbatim>\<open>ensure_powered_on\<close>. Each round reads the clock twice: in
  the loop's condition, and in the argument of \<^verbatim>\<open>time.sleep\<close>. It returns \<open>True\<close> where
  the source returns from inside the loop, and \<open>False\<close> where the loop condition fails and
  the source goes on to raise \<^verbatim>\<open>TimeoutError\<close>.
\<close>

function wait_loop :: "provider \<Rightarrow> rest \<Rightarrow> pyval \<Rightarrow> real \<Rightarrow> world \<Rightarrow> (exn + bool) \<times> world" where
  "wait_loop p inst did end_time w =
     (case time_time w of
        (now, wa) \<Rightarrow>
          if now < end_time then
            (case time_time wa of
               (now', wb) \<Rightarrow>
                 (case sleep (min 20 (end_time - now')) wb of
                    (Inl e, wc) \<Rightarrow> (Inl e, wc)
                  | (Inr u, wc) \<Rightarrow>
                      (case is_powered_on p inst did wc of
                         (Inl e, w1) \<Rightarrow> (Inl e, w1)
                       | (Inr on, w1) \<Rightarrow>
                           if on then (Inr True, w1) else wait_loop p inst did end_time w1)))
          else (Inr False, wa))"
  by pat_completeness auto

text \<open>
  The loop ends: each round either reaches the deadline or moves the clock at least 20
  seconds towards it.
\<close>

termination wait_loop
proof (relation "measure (\<lambda>(p, inst, did, end_time, w). nat \<lceil>(end_time - clock w) / 20\<rceil>)", goal_cases)
  case 1
  show ?case by simp
next
  case (2 p inst did end_time w now wa now' wb r wc u x w1 on)
  have tt: "clock w0 \<le> fst (time_time w0) \<and> clock (snd (time_time w0)) = fst (time_time w0)" for w0
    by (simp add: time_time_def split: list.splits)
  have mono: "clock w0 \<le> clock (snd (is_powered_on p inst did w0))" for w0
    by (auto simp: is_powered_on_def get_droplet_def get_def send_def Let_def
             split: if_splits prod.splits sum.splits option.splits)
  from tt [of w] 2(1) have a: "clock w \<le> now" "clock wa = now"
    by (metis fst_conv, metis fst_conv snd_conv)
  from tt [of wa] 2(3) a have b: "now \<le> now'" "clock wb = now'"
    by (metis fst_conv, metis fst_conv snd_conv)
  from 2(4,5) have c: "0 \<le> min 20 (end_time - now')" "clock wc = now' + min 20 (end_time - now')"
    using b by (auto simp: sleep_def split: if_splits)
  from 2(6) mono [of wc] have d: "clock wc \<le> clock w1"
    by (metis snd_conv)
  have lt: "clock w < end_time" using a 2(2) by simp
  then have pos: "0 < \<lceil>(end_time - clock w) / 20\<rceil>" by simp
  show ?case
  proof (cases "20 \<le> end_time - now'")
    case True
    then have "clock w + 20 \<le> clock w1" using a b c d by simp
    then have "(end_time - clock w1) / 20 \<le> (end_time - clock w) / 20 - 1"
      by (simp add: field_simps)
    then have "\<lceil>(end_time - clock w1) / 20\<rceil> \<le> \<lceil>(end_time - clock w) / 20 - 1\<rceil>"
      by (rule ceiling_mono)
    then have "\<lceil>(end_time - clock w1) / 20\<rceil> \<le> \<lceil>(end_time - clock w) / 20\<rceil> - 1"
      by (simp only: ceiling_diff_one)
    with pos show ?thesis by simp
  next
    case False
    then have "end_time \<le> clock w1" using c d by simp
    then have "\<lceil>(end_time - clock w1) / 20\<rceil> \<le> 0"
      by (simp add: ceiling_le_zero)
    with pos show ?thesis by simp
  qed
qed

declare wait_loop.simps [simp del]

text \<open>
  \<^verbatim>\<open>ensure_powered_on(inst, droplet, wait, wait_timeout)\<close>. The source evaluates
  \<^verbatim>\<open>droplet['id']\<close> at each use; the first use decides whether it raises, so it is
  evaluated once here. In \<^verbatim>\<open>time.time() + wait_timeout\<close> the clock is read before the
  timeout is converted.
\<close>

definition ensure_powered_on ::
  "provider \<Rightarrow> rest \<Rightarrow> pyval \<Rightarrow> bool \<Rightarrow> int \<Rightarrow> world \<Rightarrow> (exn + unit) \<times> world" where
  "ensure_powered_on p inst droplet wt wait_tmo w =
     (case getitem droplet ''id'' of
        Inl e \<Rightarrow> (Inl e, w)
      | Inr did \<Rightarrow>
          (case is_powered_on p inst did w of
             (Inl e, w1) \<Rightarrow> (Inl e, w1)
           | (Inr on, w1) \<Rightarrow>
               if on then (Inr (), w1)
               else
                 (case getitem droplet ''status'' of
                    Inl e \<Rightarrow> (Inl e, w1)
                  | Inr st \<Rightarrow>
                      (let w2 = (if st = PStr ''off'' then power_on p inst did w1 else w1)
                       in if wt then
                            (case time_time w2 of
                               (now, wa) \<Rightarrow>
                                 (case int_to_float wait_tmo of
                                    Inl e \<Rightarrow> (Inl e, wa)
                                  | Inr tmo \<Rightarrow>
                                      (let end_time = now + tmo
                                       in case wait_loop p inst did end_time wa of
                                            (Inl e, w3) \<Rightarrow> (Inl e, w3)
                                          | (Inr on', w3) \<Rightarrow>
                                              if on' then (Inr (), w3)
                                              else (Inl (TimeoutError did), w3))))
                          else (Inr (), w2)))))"

section \<open>The module's parameters and its result\<close>

datatype target_state = Active | Present | Absent | Deleted

text \<open>
  \<^verbatim>\<open>module.params\<close>, as \<^verbatim>\<open>argument_spec\<close> types it. The parameter \<^verbatim>\<open>id\<close> goes
  by its alias \<^verbatim>\<open>droplet_id\<close>. \<^verbatim>\<open>command\<close> and \<^verbatim>\<open>ssh_pub_key\<close> are never read.
\<close>

record params =
  state :: target_state
  api_token :: "string option"
  name :: "string option"
  size_id :: pyval
  image_id :: pyval
  region_id :: pyval
  ssh_key_ids :: pyval
  private_networking :: bool
  backups_enabled :: bool
  droplet_id :: "int option"
  unique_name :: bool
  user_data :: pyval
  ipv6 :: bool
  wait :: bool
  wait_timeout :: int

text \<open>
  How an invocation ends: \<^verbatim>\<open>exit_json\<close> with its keyword arguments (\<^verbatim>\<open>changed\<close>,
  \<^verbatim>\<open>droplet\<close>, \<^verbatim>\<open>msg\<close>), or \<^verbatim>\<open>fail_json\<close> with its message. Both end the process.
  A failure message is a string of the module, \<^verbatim>\<open>str(e)\<close> of an exception, or the
  refusal of the arguments by one of the two constraints that \<^verbatim>\<open>main\<close> declares.
\<close>

datatype message =
    Msg string
  | StrOf exn
  | RequiredTogether "string list"
  | RequiredOneOf "string list"

datatype outcome =
    Exit bool "pyval option" "string option"
  | Fail message

definition opt_int :: "int option \<Rightarrow> pyval" where
  "opt_int x = (case x of None \<Rightarrow> PNone | Some i \<Rightarrow> PInt i)"

definition opt_str :: "string option \<Rightarrow> pyval" where
  "opt_str x = (case x of None \<Rightarrow> PNone | Some s \<Rightarrow> PStr s)"

section \<open>\<^verbatim>\<open>core\<close>\<close>

text \<open>
  Lines 285-286: \<^verbatim>\<open>module.params['api_token'] or os.environ['DO_API_TOKEN'] or
  os.environ['DO_API_KEY']\<close>. \<^verbatim>\<open>or\<close> goes on to its right operand when the left one is
  \<^verbatim>\<open>None\<close> or empty, and \<^verbatim>\<open>os.environ[k]\<close> raises \<^verbatim>\<open>KeyError\<close> when \<open>k\<close> is not set.
\<close>

definition environ_token :: "(string \<rightharpoonup> string) \<Rightarrow> exn + string" where
  "environ_token environ =
     (case environ ''DO_API_TOKEN'' of
        None \<Rightarrow> Inl (KeyError ''DO_API_TOKEN'')
      | Some t \<Rightarrow>
          if t \<noteq> [] then Inr t
          else
            (case environ ''DO_API_KEY'' of
               None \<Rightarrow> Inl (KeyError ''DO_API_KEY'')
             | Some k \<Rightarrow> Inr k))"

definition load_api_token :: "params \<Rightarrow> (string \<rightharpoonup> string) \<Rightarrow> exn + string" where
  "load_api_token ps environ =
     (case api_token ps of
        None \<Rightarrow> environ_token environ
      | Some t \<Rightarrow> if t \<noteq> [] then Inr t else environ_token environ)"

text \<open>Lines 292-293: the client with its two headers.\<close>

definition rest_of :: "string \<Rightarrow> rest" where
  "rest_of tok =
     \<lparr>headers = [(''Authorization'', ''Bearer '' @ tok), (''Content-type'', ''application/json'')]\<rparr>"

text \<open>
  Lines 295-303: the lookup by id, then, if that gave nothing and \<^verbatim>\<open>unique_name\<close> is
  set, the lookup by name.
\<close>

definition locate :: "provider \<Rightarrow> rest \<Rightarrow> params \<Rightarrow> world \<Rightarrow> (exn + pyval) \<times> world" where
  "locate p inst ps w =
     (case get_droplet p inst (opt_int (droplet_id ps)) None w of
        (Inl e, w1) \<Rightarrow> (Inl e, w1)
      | (Inr droplet, w1) \<Rightarrow>
          if \<not> truthy droplet \<and> unique_name ps then get_droplet p inst PNone (name ps) w1
          else (Inr droplet, w1))"

text \<open>Lines 308-318: the creation payload, which \<^verbatim>\<open>module.jsonify\<close> serialises.\<close>

definition payload :: "params \<Rightarrow> pyval" where
  "payload ps =
     PDict [(''name'', opt_str (name ps)),
            (''size'', size_id ps),
            (''image'', image_id ps),
            (''region'', region_id ps),
            (''ssh_keys'', ssh_key_ids ps),
            (''private_networking'', PBool (private_networking ps)),
            (''backups'', PBool (backups_enabled ps)),
            (''user_data'', user_data ps),
            (''ipv6'', PBool (ipv6 ps))]"

text \<open>
  Lines 319-324, run when the lookup gave nothing. With \<^verbatim>\<open>'message'\<close> in the response
  the source evaluates \<^verbatim>\<open>droplet.json\<close> for the argument of \<^verbatim>\<open>fail_json\<close>; \<^verbatim>\<open>droplet\<close>
  is the empty result of the lookup and has no such attribute, so \<^verbatim>\<open>AttributeError\<close> is
  raised before \<^verbatim>\<open>fail_json\<close> is called.
\<close>

definition create :: "provider \<Rightarrow> rest \<Rightarrow> params \<Rightarrow> world \<Rightarrow> (exn + pyval) \<times> world" where
  "create p inst ps w =
     (case post p inst Droplets (payload ps) w of
        (res, w1) \<Rightarrow>
          (case json res of
             Inl e \<Rightarrow> (Inl e, w1)
           | Inr j \<Rightarrow>
               (case contains ''message'' j of
                  Inl e \<Rightarrow> (Inl e, w1)
                | Inr has \<Rightarrow>
                    if has then (Inl (AttributeError ''json''), w1)
                    else (getitem j ''droplet'', w1))))"

text \<open>Lines 305-334: the desired state is \<^verbatim>\<open>active\<close> or \<^verbatim>\<open>present\<close>.\<close>

definition converge_present ::
  "provider \<Rightarrow> rest \<Rightarrow> params \<Rightarrow> pyval \<Rightarrow> world \<Rightarrow> (exn + outcome) \<times> world" where
  "converge_present p inst ps found w =
     (case (if \<not> truthy found then create p inst ps w else (Inr found, w)) of
        (Inl e, w1) \<Rightarrow> (Inl e, w1)
      | (Inr droplet, w1) \<Rightarrow>
          (case getitem droplet ''id'' of
             Inl e \<Rightarrow> (Inl e, w1)
           | Inr did \<Rightarrow>
               (case is_powered_on p inst did w1 of
                  (Inl e, w2) \<Rightarrow> (Inl e, w2)
                | (Inr on, w2) \<Rightarrow>
                    if on then (Inr (Exit False (Some droplet) None), w2)
                    else
                      (case ensure_powered_on p inst droplet (wait ps) (wait_timeout ps) w2 of
                         (Inl e, w3) \<Rightarrow> (Inl e, w3)
                       | (Inr u, w3) \<Rightarrow> (Inr (Exit True (Some droplet) None), w3)))))"

text \<open>Lines 336-342: the desired state is \<^verbatim>\<open>absent\<close> or \<^verbatim>\<open>deleted\<close>.\<close>

definition converge_absent ::
  "provider \<Rightarrow> rest \<Rightarrow> pyval \<Rightarrow> world \<Rightarrow> (exn + outcome) \<times> world" where
  "converge_absent p inst found w =
     (if \<not> truthy found then (Inr (Exit False None (Some ''Droplet not found.'')), w)
      else
        (case getitem found ''id'' of
           Inl e \<Rightarrow> (Inl e, w)
         | Inr did \<Rightarrow> (Inr (Exit True None None), snd (delete p inst (Droplet did) w))))"

text \<open>
  \<^verbatim>\<open>core(module)\<close>: the result is the exception that leaves \<^verbatim>\<open>core\<close>, or the way the
  process ended inside it (\<^verbatim>\<open>exit_json\<close> and \<^verbatim>\<open>fail_json\<close> raise \<^verbatim>\<open>SystemExit\<close>,
  which \<^verbatim>\<open>except Exception\<close> in \<^verbatim>\<open>main\<close> does not catch). The \<^verbatim>\<open>KeyError\<close> handler
  reads \<^verbatim>\<open>e.message\<close>, the missing key under Python 2, which the module is written for.
\<close>

definition core ::
  "provider \<Rightarrow> (string \<rightharpoonup> string) \<Rightarrow> params \<Rightarrow> world \<Rightarrow> (exn + outcome) \<times> world" where
  "core p environ ps w =
     (case load_api_token ps environ of
        Inl (KeyError k) \<Rightarrow> (Inr (Fail (Msg (''Unable to load '' @ k))), w)
      | Inl e \<Rightarrow> (Inl e, w)
      | Inr tok \<Rightarrow>
          (let inst = rest_of tok
           in case locate p inst ps w of
                (Inl e, w1) \<Rightarrow> (Inl e, w1)
              | (Inr droplet, w1) \<Rightarrow>
                  if state ps = Active \<or> state ps = Present
                  then converge_present p inst ps droplet w1
                  else converge_absent p inst droplet w1))"

text \<open>
  Modelled from the spec: the argument check of \<^verbatim>\<open>AnsibleModule\<close>, a class of the Ansible
  library that is not among the module's sources, for the two constraints that \<^verbatim>\<open>main\<close>
  passes to it (a missing required identity hint is a fatal failure reported before any
  network call). \<^verbatim>\<open>required_together\<close>: \<^verbatim>\<open>size_id\<close>, \<^verbatim>\<open>image_id\<close> and \<^verbatim>\<open>region_id\<close> are
  given all three or not at all. \<^verbatim>\<open>required_one_of\<close>: \<^verbatim>\<open>id\<close> or \<^verbatim>\<open>name\<close> is given. A
  parameter is given when its value is not \<^verbatim>\<open>None\<close>. The types and the defaults of
  \<^verbatim>\<open>argument_spec\<close> are the types of the record \<open>params\<close>.
\<close>

definition check_arguments :: "params \<Rightarrow> message option" where
  "check_arguments ps =
     (let given = [size_id ps \<noteq> PNone, image_id ps \<noteq> PNone, region_id ps \<noteq> PNone]
      in if True \<in> set given \<and> False \<in> set given
         then Some (RequiredTogether [''size_id'', ''image_id'', ''region_id''])
         else if droplet_id ps = None \<and> name ps = None
         then Some (RequiredOneOf [''id'', ''name''])
         else None)"

text \<open>
  \<^verbatim>\<open>main()\<close>: the arguments are checked when the module object is made; then an
  exception out of \<^verbatim>\<open>core\<close> becomes \<^verbatim>\<open>fail_json(msg=str(e))\<close>.
\<close>

definition main :: "provider \<Rightarrow> (string \<rightharpoonup> string) \<Rightarrow> params \<Rightarrow> world \<Rightarrow> outcome \<times> world" where
  "main p environ ps w =
     (case check_arguments ps of
        Some m \<Rightarrow> (Fail m, w)
      | None \<Rightarrow>
          (case core p environ ps w of
             (Inl e, w1) \<Rightarrow> (Fail (StrOf e), w1)
           | (Inr out, w1) \<Rightarrow> (out, w1)))"

section \<open>Reading a trace\<close>

text \<open>The events added between an earlier world and a later one.\<close>

definition new_events :: "world \<Rightarrow> world \<Rightarrow> event list" where
  "new_events w w' = drop (length (trace w)) (trace w')"

text \<open>
  The creation call and the power-on call, as events. A mutating call is any call that is
  not a \<^verbatim>\<open>GET\<close>: the module's creation, power-on and deletion calls are the ones it
  issues.
\<close>

fun is_create :: "event \<Rightarrow> bool" where
  "is_create (Call m pth d hs) = (m = POST \<and> pth = Droplets)"
| "is_create (Sleep d) = False"

fun is_power_on :: "event \<Rightarrow> bool" where
  "is_power_on (Call m pth d hs) =
     (m = POST \<and> (case pth of DropletActions i \<Rightarrow> True | _ \<Rightarrow> False))"
| "is_power_on (Sleep d) = False"

fun mutating :: "event \<Rightarrow> bool" where
  "mutating (Call m pth d hs) = (m \<noteq> GET)"
| "mutating (Sleep d) = False"

text \<open>The lengths of the sleeps in a list of events, in order.\<close>

fun sleeps :: "event list \<Rightarrow> real list" where
  "sleeps [] = []"
| "sleeps (Sleep d # es) = d # sleeps es"
| "sleeps (Call m pth d hs # es) = sleeps es"

section \<open>Scenarios\<close>

text \<open>
  Responses as \<^verbatim>\<open>fetch_url\<close> delivers them: a success carries the document in the
  response object, an HTTP error carries it in \<^verbatim>\<open>info["body"]\<close> with no response
  object. In the scenarios a call takes no time, unless said otherwise.
\<close>

definition ok :: "pyval \<Rightarrow> answer" where
  "ok j = \<lparr>body = Some (JsonText j), info_body = None, status_code = 200, took = 0\<rparr>"

definition http_error :: "int \<Rightarrow> pyval \<Rightarrow> answer" where
  "http_error c j = \<lparr>body = None, info_body = Some (JsonText j), status_code = c, took = 0\<rparr>"

definition not_found :: answer where
  "not_found =
     http_error 404
       (PDict [(''id'', PStr ''not_found''),
               (''message'', PStr ''The resource you were accessing could not be found.'')])"

text \<open>The request of the specification's scenario: a droplet named web-1, no identifier.\<close>

definition web1 :: params where
  "web1 =
     \<lparr>state = Present, api_token = Some ''tok'', name = Some ''web-1'',
      size_id = PStr ''2gb'', image_id = PStr ''ubuntu-16-04-x64'', region_id = PStr ''nyc1'',
      ssh_key_ids = PNone, private_networking = False, backups_enabled = False,
      droplet_id = None, unique_name = True, user_data = PNone, ipv6 = False,
      wait = True, wait_timeout = 60\<rparr>"

definition start :: world where
  "start = \<lparr>clock = 0, trace = [], delays = []\<rparr>"

text \<open>A droplet as the API describes it.\<close>

definition droplet_doc :: "int \<Rightarrow> string \<Rightarrow> string \<Rightarrow> pyval" where
  "droplet_doc i n st = PDict [(''id'', PInt i), (''name'', PStr n), (''status'', PStr st)]"

text \<open>An account without droplets, which accepts no creation.\<close>

fun empty_account_answer :: "event \<Rightarrow> answer" where
  "empty_account_answer (Call m pth d hs) =
     (if m = GET \<and> pth = Droplets then ok (PDict [(''droplets'', PList [])])
      else if m = POST \<and> pth = Droplets then
        http_error 422
          (PDict [(''id'', PStr ''unprocessable_entity''),
                  (''message'', PStr ''You specified an invalid size for Droplet creation.'')])
      else not_found)"
| "empty_account_answer (Sleep d) = not_found"

definition empty_account :: provider where
  "empty_account h t = empty_account_answer (last h)"

text \<open>
  An account that holds one droplet, number 42, named web-1. Its status is a function of
  the history and the time. A deletion is answered with an empty body, a power-on with the
  action's document.
\<close>

definition no_content :: answer where
  "no_content = \<lparr>body = Some EmptyText, info_body = None, status_code = 204, took = 0\<rparr>"

fun holder_answer :: "pyval \<Rightarrow> event \<Rightarrow> answer" where
  "holder_answer doc (Call m pth d hs) =
     (if m = GET \<and> pth = Droplets then ok (PDict [(''droplets'', PList [doc])])
      else if m = GET \<and> pth = Droplet (PInt 42) then ok (PDict [(''droplet'', doc)])
      else if m = DELETE \<and> pth = Droplet (PInt 42) then no_content
      else if m = POST \<and> pth = DropletActions (PInt 42) then
        ok (PDict [(''action'', PDict [(''type'', PStr ''power_on''),
                                       (''status'', PStr ''in-progress'')])])
      else not_found)"
| "holder_answer doc (Sleep d) = not_found"

definition holder :: "(event list \<Rightarrow> real \<Rightarrow> string) \<Rightarrow> provider" where
  "holder status h t = holder_answer (droplet_doc 42 ''web-1'' (status h t)) (last h)"

text \<open>
  Status functions for the droplet of \<open>holder\<close>: off until a power-on call has been
  issued, then active at once; and off until a power-on call has been issued and the clock
  has reached 30 seconds.
\<close>

definition on_after_power_on :: "event list \<Rightarrow> real \<Rightarrow> string" where
  "on_after_power_on h t = (if list_ex is_power_on h then ''active'' else ''off'')"

definition boots_by_30 :: "event list \<Rightarrow> real \<Rightarrow> string" where
  "boots_by_30 h t = (if list_ex is_power_on h \<and> 30 \<le> t then ''active'' else ''off'')"

text \<open>
  An account without droplets that accepts a creation: the new droplet is number 7, its
  document in the creation response has the status \<open>st0\<close>, and it is active once the clock
  has reached 20 seconds.
\<close>

fun fresh_answer :: "string \<Rightarrow> bool \<Rightarrow> real \<Rightarrow> event \<Rightarrow> answer" where
  "fresh_answer st0 created t (Call m pth d hs) =
     (if m = GET \<and> pth = Droplets then
        ok (PDict [(''droplets'',
                    PList (if created
                           then [droplet_doc 7 ''web-1'' (if 20 \<le> t then ''active'' else st0)]
                           else []))])
      else if m = POST \<and> pth = Droplets then ok (PDict [(''droplet'', droplet_doc 7 ''web-1'' st0)])
      else if m = GET \<and> pth = Droplet (PInt 7) \<and> created then
        ok (PDict [(''droplet'', droplet_doc 7 ''web-1'' (if 20 \<le> t then ''active'' else st0))])
      else if m = POST \<and> pth = DropletActions (PInt 7) \<and> created then
        ok (PDict [(''action'', PDict [(''type'', PStr ''power_on''),
                                       (''status'', PStr ''in-progress'')])])
      else not_found)"
| "fresh_answer st0 created t (Sleep d) = not_found"

definition fresh_account :: "string \<Rightarrow> provider" where
  "fresh_account st0 h t = fresh_answer st0 (list_ex is_create h) t (last h)"


text \<open>
  An account with three droplets, two of them named web-1. A fetch by identifier is
  answered with 404 (the identifiers asked for in the scenarios are not among the three).
\<close>

fun crowd_answer :: "event \<Rightarrow> answer" where
  "crowd_answer (Call m pth d hs) =
     (if m = GET \<and> pth = Droplets then
        ok (PDict [(''droplets'',
                    PList [droplet_doc 41 ''db-1'' ''active'',
                           droplet_doc 42 ''web-1'' ''off'',
                           droplet_doc 43 ''web-1'' ''active''])])
      else not_found)"
| "crowd_answer (Sleep d) = not_found"

definition crowd :: provider where
  "crowd h t = crowd_answer (last h)"

section \<open>Properties\<close>

subsection \<open>What each operation adds to the trace\<close>

lemma new_events_app: "trace w' = trace w @ evs \<Longrightarrow> new_events w w' = evs"
  by (simp add: new_events_def)

text \<open>A call adds itself to the trace and never moves the clock back.\<close>

lemma send_world:
  "trace (snd (send p inst m pth d w)) = trace w @ [Call m pth d (headers inst)]
   \<and> clock w \<le> clock (snd (send p inst m pth d w))"
  by (simp add: send_def Let_def)

text \<open>A lookup issues no call or one \<^verbatim>\<open>GET\<close>.\<close>

lemma get_droplet_world:
  assumes "get_droplet p inst did nm w = (r, w')"
  shows "clock w \<le> clock w'
         \<and> (trace w' = trace w \<or> (\<exists>pth. trace w' = trace w @ [Call GET pth PNone (headers inst)]))"
  using assms
  by (auto simp: get_droplet_def get_def send_def Let_def
           split: if_splits prod.splits sum.splits option.splits)

lemma get_droplet_quiet:
  assumes "get_droplet p inst did nm w = (r, w')"
  shows "clock w \<le> clock w' \<and> (\<exists>evs. trace w' = trace w @ evs \<and> (\<forall>e\<in>set evs. \<not> mutating e))"
  using get_droplet_world [OF assms] by auto

lemma is_powered_on_world:
  assumes "is_powered_on p inst did w = (r, w')"
  shows "clock w \<le> clock w'
         \<and> (trace w' = trace w \<or> trace w' = trace w @ [Call GET (Droplet did) PNone (headers inst)])"
  using assms
  by (auto simp: is_powered_on_def get_droplet_def get_def send_def Let_def
           split: if_splits prod.splits sum.splits option.splits)

lemma locate_quiet:
  assumes "locate p inst ps w = (r, w')"
  shows "clock w \<le> clock w' \<and> (\<exists>evs. trace w' = trace w @ evs \<and> (\<forall>e\<in>set evs. \<not> mutating e))"
proof (cases "get_droplet p inst (opt_int (droplet_id ps)) None w")
  case (Pair r1 w1)
  note q1 = get_droplet_quiet [OF Pair]
  show ?thesis
  proof (cases "\<exists>d. r1 = Inr d \<and> \<not> truthy d \<and> unique_name ps")
    case True
    then have "get_droplet p inst PNone (name ps) w1 = (r, w')"
      using assms Pair by (auto simp: locate_def)
    from get_droplet_quiet [OF this] q1 show ?thesis by auto
  next
    case False
    then have "w' = w1"
      using assms Pair by (auto simp: locate_def split: sum.splits if_splits)
    with q1 show ?thesis by simp
  qed
qed

subsection \<open>Deleting what is not there\<close>

text \<open>
  With the desired state \<^verbatim>\<open>absent\<close> or \<^verbatim>\<open>deleted\<close>, arguments that pass the check and a
  credential at hand, when the lookup returns an empty value, the invocation ends through
  \<^verbatim>\<open>exit_json\<close> with \<^verbatim>\<open>changed=False\<close>, no droplet and the message
  \<^verbatim>\<open>Droplet not found.\<close>, and every call it has issued is a \<^verbatim>\<open>GET\<close>.
\<close>

lemma absent_and_empty_lookup:
  assumes "check_arguments ps = None"
      and "state ps = Absent \<or> state ps = Deleted"
      and "load_api_token ps environ = Inr tok"
      and "locate p (rest_of tok) ps w = (Inr found, w')"
      and "\<not> truthy found"
  shows "main p environ ps w = (Exit False None (Some ''Droplet not found.''), w')
         \<and> (\<forall>e\<in>set (new_events w w'). \<not> mutating e)"
proof -
  from assms(2) have "\<not> (state ps = Active \<or> state ps = Present)" by auto
  with assms have "main p environ ps w = (Exit False None (Some ''Droplet not found.''), w')"
    by (simp add: main_def core_def converge_absent_def)
  moreover from locate_quiet [OF assms(4)] have "\<forall>e\<in>set (new_events w w'). \<not> mutating e"
    by (auto simp: new_events_def)
  ultimately show ?thesis by simp
qed

text \<open>
  Claim C2 (the code departs from it). The lookup returns an empty value only when no
  identifier is given or the provider answers the fetch with an empty document. For an
  identifier that does not exist the provider answers 404 with an error document, and
  \<^verbatim>\<open>get_droplet\<close> reads \<^verbatim>\<open>['droplet']\<close> from it unguarded: \<^verbatim>\<open>KeyError\<close> is raised and the
  invocation fails, where the claim has it succeed with \<^verbatim>\<open>changed=False\<close>. The comment
  above the lookup by name in \<^verbatim>\<open>core\<close> and the test \<^verbatim>\<open>if not droplet\<close> show that an
  empty result was meant. Here: state \<^verbatim>\<open>absent\<close>, identifier 99, on an account without
  droplets.
\<close>

theorem absent_unknown_id_fails:
  "main empty_account Map.empty (web1\<lparr>state := Absent, droplet_id := Some 99\<rparr>) start
     = (Fail (StrOf (KeyError ''droplet'')),
        start\<lparr>trace := [Call GET (Droplet (PInt 99)) PNone (headers (rest_of ''tok''))]\<rparr>)"
  by (simp add: main_def check_arguments_def core_def load_api_token_def locate_def
        get_droplet_def get_def send_def opt_int_def json_def Let_def
        web1_def start_def empty_account_def not_found_def http_error_def)

subsection \<open>The credential\<close>

text \<open>
  Claim C7 (the code departs from it). The module's notes say that either of the two
  environment variables can be used. With no \<^verbatim>\<open>api_token\<close> parameter and only
  \<^verbatim>\<open>DO_API_KEY\<close> set, reading \<^verbatim>\<open>os.environ['DO_API_TOKEN']\<close> raises \<^verbatim>\<open>KeyError\<close>
  before \<^verbatim>\<open>DO_API_KEY\<close> is looked at, and the invocation fails, before any API call.
\<close>

theorem api_key_alone_is_refused:
  "main empty_account [''DO_API_KEY'' \<mapsto> ''secret''] (web1\<lparr>api_token := None\<rparr>) start
     = (Fail (Msg ''Unable to load DO_API_TOKEN''), start)"
  by (simp add: main_def check_arguments_def core_def load_api_token_def environ_token_def web1_def)

subsection \<open>A failed lookup by identifier\<close>

text \<open>
  Claim C8. With arguments that pass the check, a credential at hand and a non-zero
  identifier supplied, when the answer to the fetch by identifier is a document from which
  \<^verbatim>\<open>['droplet']\<close> cannot be read (an error payload: reading it raises \<^verbatim>\<open>KeyError\<close>, or
  \<^verbatim>\<open>TypeError\<close> when the document is no dictionary), the invocation fails with that
  exception's text, in the world that the fetch has left. The fetch is its only call: no
  droplet is created. This holds whatever the desired state and the name are.
\<close>

theorem failed_id_lookup_is_fatal:
  assumes "check_arguments ps = None"
      and "load_api_token ps environ = Inr tok"
      and "droplet_id ps = Some i" and "i \<noteq> 0"
      and "json (fst (get p (rest_of tok) (Droplet (PInt i)) w)) = Inr j"
      and "getitem j ''droplet'' = Inl e"
  shows "main p environ ps w = (Fail (StrOf e), snd (get p (rest_of tok) (Droplet (PInt i)) w))
          \<and> new_events w (snd (main p environ ps w))
              = [Call GET (Droplet (PInt i)) PNone (headers (rest_of tok))]
          \<and> (e = KeyError ''droplet'' \<or> e = TypeError)
          \<and> \<not> list_ex is_create (new_events w (snd (main p environ ps w)))"
proof -
  let ?g = "get p (rest_of tok) (Droplet (PInt i)) w"
  from assms(6) have e: "e = KeyError ''droplet'' \<or> e = TypeError"
    by (cases j) (auto split: option.splits)
  from assms(3-6) have "get_droplet p (rest_of tok) (opt_int (droplet_id ps)) None w = (Inl e, snd ?g)"
    by (auto simp: get_droplet_def opt_int_def split: prod.splits)
  then have m: "main p environ ps w = (Fail (StrOf e), snd ?g)"
    using assms(1,2) by (simp add: main_def core_def locate_def)
  have "trace (snd ?g) = trace w @ [Call GET (Droplet (PInt i)) PNone (headers (rest_of tok))]"
    by (simp add: get_def send_def Let_def)
  with m e show ?thesis by (simp add: new_events_def)
qed

text \<open>
  The specification's scenario: identifier 99, desired state \<^verbatim>\<open>present\<close>, and the
  provider answers 404 with an error document.
\<close>

theorem failed_id_lookup_is_fatal_witness:
  "main empty_account Map.empty (web1\<lparr>droplet_id := Some 99, name := None\<rparr>) start
     = (Fail (StrOf (KeyError ''droplet'')),
        start\<lparr>trace := [Call GET (Droplet (PInt 99)) PNone (headers (rest_of ''tok''))]\<rparr>)"
proof -
  let ?ps = "web1\<lparr>droplet_id := Some 99, name := None\<rparr>"
  let ?j = "PDict [(''id'', PStr ''not_found''),
               (''message'', PStr ''The resource you were accessing could not be found.'')]"
  have ck: "check_arguments ?ps = None"
    by (simp add: check_arguments_def web1_def)
  have tok: "load_api_token ?ps Map.empty = Inr ''tok''"
    by (simp add: load_api_token_def web1_def)
  have id: "droplet_id ?ps = Some 99" "(99::int) \<noteq> 0" by simp_all
  have j: "json (fst (get empty_account (rest_of ''tok'') (Droplet (PInt 99)) start)) = Inr ?j"
    by (simp add: get_def send_def Let_def empty_account_def not_found_def http_error_def json_def)
  have no: "getitem ?j ''droplet'' = Inl (KeyError ''droplet'')" by simp
  have g: "snd (get empty_account (rest_of ''tok'') (Droplet (PInt 99)) start)
             = start\<lparr>trace := [Call GET (Droplet (PInt 99)) PNone (headers (rest_of ''tok''))]\<rparr>"
    by (simp add: get_def send_def Let_def empty_account_def not_found_def http_error_def start_def)
  from failed_id_lookup_is_fatal [where p = empty_account and w = start, OF ck tok id j no] g
  show ?thesis by simp
qed

subsection \<open>The lookup by name\<close>

lemma scan_names_find:
  assumes "\<forall>d\<in>set ds. \<exists>v. getitem d ''name'' = Inr v"
  shows "scan_names ds n =
           Inr (case find (\<lambda>d. getitem d ''name'' = Inr (PStr n)) ds of
                  None \<Rightarrow> PBool False | Some d \<Rightarrow> d)"
  using assms by (induction ds) auto

text \<open>Without \<^verbatim>\<open>unique_name\<close> the lookup is the lookup by identifier and nothing else.\<close>

lemma locate_without_unique_name:
  "\<not> unique_name ps \<Longrightarrow> locate p inst ps w = get_droplet p inst (opt_int (droplet_id ps)) None w"
  by (simp add: locate_def split: prod.splits sum.splits)

text \<open>
  With \<^verbatim>\<open>unique_name\<close> set and a non-empty name, after a lookup by identifier that has
  returned an empty value, the locator lists the droplets and scans the listing.
\<close>

lemma name_lookup_after_empty_result:
  assumes "unique_name ps" and "name ps = Some n" and "n \<noteq> []"
      and "get_droplet p inst (opt_int (droplet_id ps)) None w = (Inr d0, w1)"
      and "\<not> truthy d0"
      and "json (fst (get p inst Droplets w1)) = Inr j"
      and "getitem j ''droplets'' = Inr (PList ds)"
      and "\<forall>d\<in>set ds. \<exists>v. getitem d ''name'' = Inr v"
  shows "locate p inst ps w =
           (Inr (case find (\<lambda>d. getitem d ''name'' = Inr (PStr n)) ds of
                   None \<Rightarrow> PBool False | Some d \<Rightarrow> d),
            snd (get p inst Droplets w1))"
proof -
  have "get_droplet p inst PNone (name ps) w1 = (scan_names ds n, snd (get p inst Droplets w1))"
    using assms(2,3,6,7) by (auto simp: get_droplet_def split: prod.splits)
  with assms(1,4,5) scan_names_find [OF assms(8)] show ?thesis
    by (simp add: locate_def)
qed

text \<open>
  Claim C3, as the code has it. The lookup by name is gated by \<^verbatim>\<open>unique_name\<close>. When
  \<^verbatim>\<open>unique_name\<close> is set, no identifier is supplied and a non-empty name is supplied, the
  locator issues one call, the listing; if the listing is a list of documents that each
  have a name, the result is the first one whose name equals the requested name, and
  \<^verbatim>\<open>False\<close> when there is none. What the locator does when an identifier is supplied and
  its lookup finds nothing is left out here.
\<close>

theorem name_lookup_first_match:
  assumes "unique_name ps" and "name ps = Some n" and "n \<noteq> []"
      and "droplet_id ps = None"
      and "json (fst (get p inst Droplets w)) = Inr j"
      and "getitem j ''droplets'' = Inr (PList ds)"
      and "\<forall>d\<in>set ds. \<exists>v. getitem d ''name'' = Inr v"
  shows "locate p inst ps w =
           (Inr (case find (\<lambda>d. getitem d ''name'' = Inr (PStr n)) ds of
                   None \<Rightarrow> PBool False | Some d \<Rightarrow> d),
            snd (get p inst Droplets w))
         \<and> new_events w (snd (locate p inst ps w)) = [Call GET Droplets PNone (headers inst)]"
proof -
  have "get_droplet p inst (opt_int (droplet_id ps)) None w = (Inr (PBool False), w)"
    using assms(4) by (simp add: get_droplet_def opt_int_def)
  from name_lookup_after_empty_result [OF assms(1-3) this _ assms(5-7)]
  have "locate p inst ps w =
           (Inr (case find (\<lambda>d. getitem d ''name'' = Inr (PStr n)) ds of
                   None \<Rightarrow> PBool False | Some d \<Rightarrow> d),
            snd (get p inst Droplets w))"
    by simp
  moreover have "trace (snd (get p inst Droplets w)) = trace w @ [Call GET Droplets PNone (headers inst)]"
    by (simp add: get_def send_def Let_def)
  ultimately show ?thesis by (simp add: new_events_def)
qed

text \<open>
  The scenario's request against the account with three droplets: the listing holds db-1,
  then web-1 with id 42, then another web-1 with id 43; the result is the one with id 42.
\<close>

theorem name_lookup_first_match_witness:
  "locate crowd (rest_of ''tok'') web1 start =
     (Inr (droplet_doc 42 ''web-1'' ''off''),
      start\<lparr>trace := [Call GET Droplets PNone (headers (rest_of ''tok''))]\<rparr>)
   \<and> new_events start (snd (locate crowd (rest_of ''tok'') web1 start))
       = [Call GET Droplets PNone (headers (rest_of ''tok''))]"
proof -
  let ?ds = "[droplet_doc 41 ''db-1'' ''active'', droplet_doc 42 ''web-1'' ''off'',
              droplet_doc 43 ''web-1'' ''active'']"
  have a: "unique_name web1" "name web1 = Some ''web-1''" "''web-1'' \<noteq> []" "droplet_id web1 = None"
    by (simp_all add: web1_def)
  have c: "json (fst (get crowd (rest_of ''tok'') Droplets start)) = Inr (PDict [(''droplets'', PList ?ds)])"
    by (simp add: get_def send_def Let_def crowd_def json_def ok_def)
  have d: "getitem (PDict [(''droplets'', PList ?ds)]) ''droplets'' = Inr (PList ?ds)"
    by simp
  have e: "\<forall>d\<in>set ?ds. \<exists>v. getitem d ''name'' = Inr v"
    by (simp add: droplet_doc_def)
  have g: "snd (get crowd (rest_of ''tok'') Droplets start)
             = start\<lparr>trace := [Call GET Droplets PNone (headers (rest_of ''tok''))]\<rparr>"
    by (simp add: get_def send_def Let_def crowd_def ok_def start_def)
  from name_lookup_first_match [where p = crowd and w = start, OF a c d e] g
  show ?thesis
    by (simp add: droplet_doc_def new_events_def start_def)
qed

text \<open>
  The claim as stated fails twice, on the account that holds a droplet named web-1. With
  \<^verbatim>\<open>unique_name\<close> off, no identifier and the name web-1, the locator returns \<^verbatim>\<open>False\<close>
  and has issued no call. With \<^verbatim>\<open>unique_name\<close> on, the name web-1 and the identifier 99,
  which the provider does not know, the locator raises \<^verbatim>\<open>KeyError\<close> after the fetch by
  identifier and does not list.
\<close>

theorem name_lookup_not_performed:
  "droplet_id (web1\<lparr>unique_name := False\<rparr>) = None
   \<and> name (web1\<lparr>unique_name := False\<rparr>) = Some ''web-1''
   \<and> json (fst (get (holder (\<lambda>h t. ''active'')) (rest_of ''tok'') Droplets start))
        = Inr (PDict [(''droplets'', PList [droplet_doc 42 ''web-1'' ''active''])])
   \<and> locate (holder (\<lambda>h t. ''active'')) (rest_of ''tok'') (web1\<lparr>unique_name := False\<rparr>) start
        = (Inr (PBool False), start)
   \<and> unique_name (web1\<lparr>droplet_id := Some 99\<rparr>)
   \<and> locate (holder (\<lambda>h t. ''active'')) (rest_of ''tok'') (web1\<lparr>droplet_id := Some 99\<rparr>) start
        = (Inl (KeyError ''droplet''),
           start\<lparr>trace := [Call GET (Droplet (PInt 99)) PNone (headers (rest_of ''tok''))]\<rparr>)"
  by (simp add: web1_def holder_def json_def ok_def not_found_def http_error_def locate_def
        get_droplet_def get_def send_def Let_def opt_int_def start_def)

subsection \<open>The droplet in the outcome\<close>




subsection \<open>A rejected creation\<close>

text \<open>
  When the lookup has returned nothing and the answer to the creation call contains
  \<^verbatim>\<open>'message'\<close>, the invocation fails, and the creation call is its last call: no second
  creation, no power-on, no deletion. The failure's text is that of the
  \<^verbatim>\<open>AttributeError\<close> raised by \<^verbatim>\<open>droplet.json\<close>, not the provider's message.
\<close>

lemma creation_error_is_fatal:
  assumes "check_arguments ps = None"
      and "load_api_token ps environ = Inr tok"
      and "state ps = Active \<or> state ps = Present"
      and "locate p (rest_of tok) ps w = (Inr found, w1)" and "\<not> truthy found"
      and "json (fst (post p (rest_of tok) Droplets (payload ps) w1)) = Inr j"
      and "contains ''message'' j = Inr True"
  shows "main p environ ps w
           = (Fail (StrOf (AttributeError ''json'')),
              snd (post p (rest_of tok) Droplets (payload ps) w1))"
  using assms
  by (auto simp: main_def core_def converge_present_def create_def Let_def split: prod.splits)

text \<open>
  Claim C6 (the code departs from it). The scenario's request on an account that rejects
  the creation with status 422 and a document with a \<^verbatim>\<open>message\<close>: the invocation fails
  after the listing and the one creation call, and what it reports is
  \<^verbatim>\<open>str(AttributeError)\<close> for the attribute \<^verbatim>\<open>json\<close>, which says nothing of the creation
  or of the provider's reason.
\<close>

theorem creation_error_report:
  "main empty_account Map.empty web1 start
     = (Fail (StrOf (AttributeError ''json'')),
        start\<lparr>trace := [Call GET Droplets PNone (headers (rest_of ''tok'')),
                         Call POST Droplets (payload web1) (headers (rest_of ''tok''))]\<rparr>)"
  by (simp add: main_def check_arguments_def core_def load_api_token_def rest_of_def locate_def
        get_droplet_def get_def post_def send_def opt_int_def json_def converge_present_def
        create_def Let_def web1_def start_def ok_def http_error_def empty_account_def payload_def)

subsection \<open>The polling loop\<close>

text \<open>
  Reading the clock never moves it back and adds nothing to the trace; it uses up delays,
  and changes nothing when there is none.
\<close>

lemma time_time_clock:
  "time_time w = (now, wa)
   \<Longrightarrow> clock w \<le> now \<and> clock wa = now \<and> trace wa = trace w
       \<and> (delays w = [] \<longrightarrow> wa = w)
       \<and> (\<exists>k. delays wa = drop k (delays w))"
proof (cases "delays w")
  case Nil
  assume "time_time w = (now, wa)"
  with Nil have "now = clock w" "wa = w" by (auto simp: time_time_def)
  then show ?thesis using Nil by (auto intro: exI [of _ 0])
next
  case (Cons d ds)
  assume "time_time w = (now, wa)"
  with Cons have "now = clock w + max 0 d" "wa = w\<lparr>clock := clock w + max 0 d, delays := ds\<rparr>"
    by (auto simp: time_time_def)
  then show ?thesis using Cons by (auto intro: exI [of _ 1])
qed


lemma is_powered_on_step:
  assumes "is_powered_on p inst did w = (r, w')"
  shows "clock w \<le> clock w'
         \<and> (\<exists>evs. trace w' = trace w @ evs \<and> sleeps evs = [] \<and> (\<forall>e\<in>set evs. \<not> mutating e))"
  using is_powered_on_world [OF assms] by auto

text \<open>A status fetch that returns a status has issued its call; the identifier was not empty.\<close>

lemma is_powered_on_fetch:
  assumes "is_powered_on p inst did w = (Inr b, w')"
  shows "trace w' = trace w @ [Call GET (Droplet did) PNone (headers inst)] \<and> truthy did"
  using assms
  by (auto simp: is_powered_on_def get_droplet_def get_def send_def Let_def
           split: if_splits prod.splits sum.splits option.splits)

lemma is_powered_on_issues:
  assumes "truthy did"
  shows "trace (snd (is_powered_on p inst did w))
           = trace w @ [Call GET (Droplet did) PNone (headers inst)]"
  using assms
  by (auto simp: is_powered_on_def get_droplet_def get_def send_def Let_def
           split: if_splits prod.splits sum.splits option.splits)


lemma power_on_step:
  "clock w \<le> clock (power_on p inst did w)
   \<and> trace (power_on p inst did w)
       = trace w @ [Call POST (DropletActions did) (PDict [(''type'', PStr ''power_on'')]) (headers inst)]"
  by (simp add: power_on_def post_def send_def Let_def)

text \<open>API calls leave the delays to come as they are.\<close>

lemma is_powered_on_delays:
  "delays (snd (is_powered_on p inst did w)) = delays w"
  by (auto simp: is_powered_on_def get_droplet_def get_def send_def Let_def
           split: if_splits prod.splits sum.splits option.splits)

lemma power_on_delays:
  "delays (power_on p inst did w) = delays w"
  by (simp add: power_on_def post_def send_def Let_def)

text \<open>A sleep is refused, or it adds itself to the trace.\<close>

lemma sleep_cases:
  "sleep d w = (r, w')
   \<Longrightarrow> (d < 0 \<and> r = Inl IOError \<and> w' = w)
       \<or> (0 \<le> d \<and> r = Inr () \<and> w' = w\<lparr>clock := clock w + d, trace := trace w @ [Sleep d]\<rparr>)"
  by (auto simp: sleep_def split: if_splits)

text \<open>Past the deadline the loop reads the clock and leaves.\<close>

lemma wait_loop_past_deadline:
  "end_time \<le> clock w \<Longrightarrow> wait_loop p inst did end_time w = (Inr False, snd (time_time w))"
proof -
  assume a: "end_time \<le> clock w"
  obtain now wa where tt: "time_time w = (now, wa)" by (cases "time_time w")
  from time_time_clock [OF tt] a have "\<not> now < end_time" by simp
  with tt show ?thesis by (subst wait_loop.simps) simp
qed

text \<open>
  When the process is not held up, a round of the loop is: test the deadline, sleep for
  20 seconds or the time left, fetch the status.
\<close>

lemma wait_loop_undelayed:
  assumes "delays w = []"
  shows "wait_loop p inst did e w =
           (if clock w < e then
              (case is_powered_on p inst did (snd (sleep (min 20 (e - clock w)) w)) of
                 (Inl x, w1) \<Rightarrow> (Inl x, w1)
               | (Inr on, w1) \<Rightarrow> if on then (Inr True, w1) else wait_loop p inst did e w1)
            else (Inr False, w))"
proof (cases "clock w < e")
  case True
  then have "\<not> min 20 (e - clock w) < 0" by simp
  with True assms show ?thesis
    by (subst wait_loop.simps) (simp add: time_time_def sleep_def)
next
  case False
  with assms show ?thesis
    by (subst wait_loop.simps) (simp add: time_time_def)
qed

text \<open>
  The loop issues no mutating call, and what it adds to the trace is nothing or begins
  with a sleep.
\<close>

lemma wait_loop_quiet:
  "\<exists>evs. trace (snd (wait_loop p inst did end_time w)) = trace w @ evs
         \<and> (\<forall>e\<in>set evs. \<not> mutating e)
         \<and> (evs = [] \<or> (\<exists>d evs'. evs = Sleep d # evs'))"
proof (induction p inst did end_time w rule: wait_loop.induct)
  case (1 p inst did end_time w)
  obtain now wa where ta: "time_time w = (now, wa)" by (cases "time_time w")
  from time_time_clock [OF ta] have tra: "trace wa = trace w" by simp
  show ?case
  proof (cases "now < end_time")
    case False
    with ta have "wait_loop p inst did end_time w = (Inr False, wa)"
      by (subst wait_loop.simps) simp
    with tra show ?thesis by simp
  next
    case True
    obtain now' wb where tb: "time_time wa = (now', wb)" by (cases "time_time wa")
    from time_time_clock [OF tb] tra have trb: "trace wb = trace w" by simp
    let ?d = "min 20 (end_time - now')"
    obtain rs wc where sl: "sleep ?d wb = (rs, wc)" by (cases "sleep ?d wb")
    from sleep_cases [OF sl]
    show ?thesis
    proof (elim disjE conjE)
      assume "rs = Inl IOError" "wc = wb"
      with ta tb True sl have "wait_loop p inst did end_time w = (Inl IOError, wb)"
        by (subst wait_loop.simps) simp
      with trb show ?thesis by simp
    next
      assume rs: "rs = Inr ()" and wc: "wc = wb\<lparr>clock := clock wb + ?d, trace := trace wb @ [Sleep ?d]\<rparr>"
      obtain r w1 where ip: "is_powered_on p inst did wc = (r, w1)"
        by (cases "is_powered_on p inst did wc")
      from is_powered_on_step [OF ip] wc trb obtain evs1 where
        t1: "trace w1 = trace w @ Sleep ?d # evs1" and q1: "\<forall>e\<in>set evs1. \<not> mutating e"
        by auto
      show ?thesis
      proof (cases "r = Inr False")
        case r: True
        from "1.IH" [OF ta [symmetric] True tb [symmetric] sl [symmetric] rs ip [symmetric] r]
        obtain evs2 where
          t2: "trace (snd (wait_loop p inst did end_time w1)) = trace w1 @ evs2"
          and q2: "\<forall>e\<in>set evs2. \<not> mutating e"
          by auto
        have "wait_loop p inst did end_time w = wait_loop p inst did end_time w1"
          using ta tb True sl rs ip r by (subst wait_loop.simps) simp
        with t1 t2 have "trace (snd (wait_loop p inst did end_time w)) = trace w @ Sleep ?d # (evs1 @ evs2)"
          by simp
        moreover have "\<forall>e\<in>set (Sleep ?d # (evs1 @ evs2)). \<not> mutating e"
          using q1 q2 by auto
        ultimately show ?thesis by blast
      next
        case False
        then have "snd (wait_loop p inst did end_time w) = w1"
          using ta tb True sl rs ip by (subst wait_loop.simps) (auto split: sum.splits)
        with t1 have "trace (snd (wait_loop p inst did end_time w)) = trace w @ Sleep ?d # evs1"
          by simp
        moreover have "\<forall>e\<in>set (Sleep ?d # evs1). \<not> mutating e"
          using q1 by auto
        ultimately show ?thesis by blast
      qed
    qed
  qed
qed

text \<open>
  Whatever the delays, the loop adds nothing to the trace, or a sleep and then the status
  fetch: no fetch without a sleep before it.
\<close>

lemma wait_loop_sleep_before_fetch:
  assumes "truthy did"
  shows "\<exists>evs. trace (snd (wait_loop p inst did end_time w)) = trace w @ evs
           \<and> (evs = [] \<or> (\<exists>d evs'. evs = Sleep d # Call GET (Droplet did) PNone (headers inst) # evs'))"
proof -
  obtain now wa where ta: "time_time w = (now, wa)" by (cases "time_time w")
  from time_time_clock [OF ta] have tra: "trace wa = trace w" by simp
  show ?thesis
  proof (cases "now < end_time")
    case False
    with ta have "wait_loop p inst did end_time w = (Inr False, wa)"
      by (subst wait_loop.simps) simp
    with tra show ?thesis by simp
  next
    case True
    obtain now' wb where tb: "time_time wa = (now', wb)" by (cases "time_time wa")
    from time_time_clock [OF tb] tra have trb: "trace wb = trace w" by simp
    let ?d = "min 20 (end_time - now')"
    obtain rs wc where sl: "sleep ?d wb = (rs, wc)" by (cases "sleep ?d wb")
    from sleep_cases [OF sl]
    show ?thesis
    proof (elim disjE conjE)
      assume "rs = Inl IOError" "wc = wb"
      with ta tb True sl have "wait_loop p inst did end_time w = (Inl IOError, wb)"
        by (subst wait_loop.simps) simp
      with trb show ?thesis by simp
    next
      assume rs: "rs = Inr ()" and wc: "wc = wb\<lparr>clock := clock wb + ?d, trace := trace wb @ [Sleep ?d]\<rparr>"
      obtain r w1 where ip: "is_powered_on p inst did wc = (r, w1)"
        by (cases "is_powered_on p inst did wc")
      from is_powered_on_issues [OF assms, of p inst wc] ip wc trb
      have t1: "trace w1 = trace w @ [Sleep ?d, Call GET (Droplet did) PNone (headers inst)]"
        by simp
      show ?thesis
      proof (cases "r = Inr False")
        case r: True
        have "wait_loop p inst did end_time w = wait_loop p inst did end_time w1"
          using ta tb True sl rs ip r by (subst wait_loop.simps) simp
        moreover from wait_loop_quiet [of p inst did end_time w1] obtain evs where
          "trace (snd (wait_loop p inst did end_time w1)) = trace w1 @ evs" by auto
        ultimately show ?thesis using t1 by simp
      next
        case False
        then have "snd (wait_loop p inst did end_time w) = w1"
          using ta tb True sl rs ip by (subst wait_loop.simps) (auto split: sum.splits)
        with t1 show ?thesis by simp
      qed
    qed
  qed
qed

text \<open>
  When the process is not held up, before the deadline the loop sleeps first, for 20
  seconds or the time left, and then fetches the status.
\<close>

lemma wait_loop_sleeps_then_fetches:
  assumes "delays w = []" and "clock w < end_time" and "truthy did"
  shows "\<exists>evs. trace (snd (wait_loop p inst did end_time w))
           = trace w @ Sleep (min 20 (end_time - clock w))
                     # Call GET (Droplet did) PNone (headers inst) # evs"
proof -
  let ?d = "min 20 (end_time - clock w)"
  let ?ws = "snd (sleep ?d w)"
  have ws: "?ws = w\<lparr>clock := clock w + ?d, trace := trace w @ [Sleep ?d]\<rparr>"
    using assms(2) by (simp add: sleep_def)
  obtain r w1 where ip: "is_powered_on p inst did ?ws = (r, w1)"
    by (cases "is_powered_on p inst did ?ws")
  from is_powered_on_issues [OF assms(3), of p inst ?ws] ip
  have t1: "trace w1 = trace w @ [Sleep ?d, Call GET (Droplet did) PNone (headers inst)]"
    by (simp add: ws)
  show ?thesis
  proof (cases "r = Inr False")
    case True
    then have "wait_loop p inst did end_time w = wait_loop p inst did end_time w1"
      using assms(2) ip by (simp add: wait_loop_undelayed [OF assms(1)])
    moreover from wait_loop_quiet [of p inst did end_time w1] obtain evs where
      "trace (snd (wait_loop p inst did end_time w1)) = trace w1 @ evs" by auto
    ultimately show ?thesis using t1 by simp
  next
    case False
    then have "snd (wait_loop p inst did end_time w) = w1"
      using assms(2) ip by (auto simp: wait_loop_undelayed [OF assms(1)] split: sum.splits)
    with t1 show ?thesis by simp
  qed
qed


text \<open>
  Claim C10, as the code has it. In \<^verbatim>\<open>ensure_powered_on\<close> with \<^verbatim>\<open>wait\<close> set and a
  timeout \<open>T\<close> that converts to a float, when the first status fetch finds the droplet not
  active, let \<open>w2\<close> be the world after the power-on call (issued when the droplet's document
  says \<^verbatim>\<open>off\<close>). With a timeout of zero or less the loop body is not entered:
  \<^verbatim>\<open>TimeoutError\<close> is raised and nothing is added to the trace of \<open>w2\<close>, no sleep and no
  fetch, whatever the provider would answer. With any timeout, what is added to the trace
  of \<open>w2\<close> is nothing, or a sleep and then the status fetch: there is no fetch without a
  sleep before it. With a positive timeout and a process that is not held up, it is a sleep
  of \<open>min 20 T\<close> seconds and then the status fetch.
\<close>

theorem poll_sleeps_first:
  assumes "getitem droplet ''id'' = Inr did" and "getitem droplet ''status'' = Inr st"
      and "is_powered_on p inst did w = (Inr False, w1)"
      and "w2 = (if st = PStr ''off'' then power_on p inst did w1 else w1)"
      and "int_to_float T = Inr (real_of_int T)"
  shows "(T \<le> 0 \<longrightarrow> (\<exists>w'. ensure_powered_on p inst droplet True T w = (Inl (TimeoutError did), w')
                         \<and> trace w' = trace w2))
       \<and> (\<exists>evs. trace (snd (ensure_powered_on p inst droplet True T w)) = trace w2 @ evs
                \<and> (evs = [] \<or> (\<exists>d evs'. evs = Sleep d # Call GET (Droplet did) PNone (headers inst) # evs')))
       \<and> (0 < T \<and> delays w = [] \<longrightarrow>
            (\<exists>evs. trace (snd (ensure_powered_on p inst droplet True T w))
                     = trace w2 @ Sleep (min 20 (real_of_int T))
                                # Call GET (Droplet did) PNone (headers inst) # evs))"
proof -
  obtain now wa where ta: "time_time w2 = (now, wa)" by (cases "time_time w2")
  note tc = time_time_clock [OF ta]
  let ?e = "now + real_of_int T"
  have did: "truthy did" using is_powered_on_fetch [OF assms(3)] by simp
  have en: "ensure_powered_on p inst droplet True T w =
              (case wait_loop p inst did ?e wa of
                 (Inl e, w3) \<Rightarrow> (Inl e, w3)
               | (Inr on', w3) \<Rightarrow> if on' then (Inr (), w3) else (Inl (TimeoutError did), w3))"
    using assms ta by (simp add: ensure_powered_on_def Let_def)
  then have sn: "snd (ensure_powered_on p inst droplet True T w) = snd (wait_loop p inst did ?e wa)"
    by (simp split: prod.splits sum.splits)
  have one: "T \<le> 0 \<longrightarrow> (\<exists>w'. ensure_powered_on p inst droplet True T w = (Inl (TimeoutError did), w')
                         \<and> trace w' = trace w2)"
  proof
    assume "T \<le> 0"
    with tc have "?e \<le> clock wa" by simp
    from wait_loop_past_deadline [OF this]
    have wl: "wait_loop p inst did ?e wa = (Inr False, snd (time_time wa))" .
    obtain now' wb where tb: "time_time wa = (now', wb)" by (cases "time_time wa")
    from time_time_clock [OF tb] tc have "trace wb = trace w2" by simp
    with en wl tb show "\<exists>w'. ensure_powered_on p inst droplet True T w = (Inl (TimeoutError did), w')
                         \<and> trace w' = trace w2"
      by simp
  qed
  have two: "\<exists>evs. trace (snd (ensure_powered_on p inst droplet True T w)) = trace w2 @ evs
                \<and> (evs = [] \<or> (\<exists>d evs'. evs = Sleep d # Call GET (Droplet did) PNone (headers inst) # evs'))"
    using wait_loop_sleep_before_fetch [OF did, of p inst ?e wa] tc sn by simp
  have three: "0 < T \<and> delays w = [] \<longrightarrow>
            (\<exists>evs. trace (snd (ensure_powered_on p inst droplet True T w))
                     = trace w2 @ Sleep (min 20 (real_of_int T))
                                # Call GET (Droplet did) PNone (headers inst) # evs)"
  proof
    assume a: "0 < T \<and> delays w = []"
    from assms(3) is_powered_on_delays [of p inst did w] a have "delays w1 = []" by simp
    with assms(4) have "delays w2 = []" by (simp add: power_on_delays)
    with tc have wa: "wa = w2" by simp
    with tc have now: "now = clock w2" by simp
    from a have "clock w2 < clock w2 + real_of_int T" by simp
    from wait_loop_sleeps_then_fetches [OF \<open>delays w2 = []\<close> this did, of p inst]
    show "\<exists>evs. trace (snd (ensure_powered_on p inst droplet True T w))
                     = trace w2 @ Sleep (min 20 (real_of_int T))
                                # Call GET (Droplet did) PNone (headers inst) # evs"
      using sn wa now by simp
  qed
  from one two three show ?thesis by (intro conjI)
qed

text \<open>
  Droplet 42 is off and becomes active as soon as the power-on call is in. With timeout 0
  the call times out although a fetch would find the droplet active; with timeout 60 the
  loop sleeps 20 seconds and then fetches.
\<close>

theorem poll_sleeps_first_witness:
  "ensure_powered_on (holder on_after_power_on) (rest_of ''tok'') (droplet_doc 42 ''web-1'' ''off'') True 0 start
     = (Inl (TimeoutError (PInt 42)), (start\<lparr>trace := [Call GET (Droplet (PInt 42)) PNone (headers (rest_of ''tok'')),
                         Call POST (DropletActions (PInt 42)) (PDict [(''type'', PStr ''power_on'')]) (headers (rest_of ''tok''))]\<rparr>))
   \<and> fst (is_powered_on (holder on_after_power_on) (rest_of ''tok'') (PInt 42) (start\<lparr>trace := [Call GET (Droplet (PInt 42)) PNone (headers (rest_of ''tok'')),
                         Call POST (DropletActions (PInt 42)) (PDict [(''type'', PStr ''power_on'')]) (headers (rest_of ''tok''))]\<rparr>)) = Inr True
   \<and> (\<exists>w'. ensure_powered_on (holder on_after_power_on) (rest_of ''tok'')
               (droplet_doc 42 ''web-1'' ''off'') True 0 start = (Inl (TimeoutError (PInt 42)), w')
           \<and> trace w' = trace (start\<lparr>trace := [Call GET (Droplet (PInt 42)) PNone (headers (rest_of ''tok'')),
                         Call POST (DropletActions (PInt 42)) (PDict [(''type'', PStr ''power_on'')]) (headers (rest_of ''tok''))]\<rparr>))
   \<and> ensure_powered_on (holder on_after_power_on) (rest_of ''tok'') (droplet_doc 42 ''web-1'' ''off'') True 60 start
     = (Inr (), start\<lparr>clock := 20, trace := [Call GET (Droplet (PInt 42)) PNone (headers (rest_of ''tok'')),
                         Call POST (DropletActions (PInt 42)) (PDict [(''type'', PStr ''power_on'')]) (headers (rest_of ''tok'')),
                         Sleep 20,
                         Call GET (Droplet (PInt 42)) PNone (headers (rest_of ''tok''))]\<rparr>)
   \<and> (\<exists>evs. trace (snd (ensure_powered_on (holder on_after_power_on) (rest_of ''tok'')
                       (droplet_doc 42 ''web-1'' ''off'') True 60 start))
             = trace (start\<lparr>trace := [Call GET (Droplet (PInt 42)) PNone (headers (rest_of ''tok'')),
                         Call POST (DropletActions (PInt 42)) (PDict [(''type'', PStr ''power_on'')]) (headers (rest_of ''tok''))]\<rparr>) @ Sleep (min 20 (real_of_int 60)) # Call GET (Droplet (PInt 42)) PNone (headers (rest_of ''tok'')) # evs)"
proof -
  let ?p = "holder on_after_power_on"
  let ?doc = "droplet_doc 42 ''web-1'' ''off''"
  let ?w1 = "start\<lparr>trace := [Call GET (Droplet (PInt 42)) PNone (headers (rest_of ''tok''))]\<rparr>"
  let ?w2 = "(start\<lparr>trace := [Call GET (Droplet (PInt 42)) PNone (headers (rest_of ''tok'')),
                         Call POST (DropletActions (PInt 42)) (PDict [(''type'', PStr ''power_on'')]) (headers (rest_of ''tok''))]\<rparr>)"
  have a: "getitem ?doc ''id'' = Inr (PInt 42)" "getitem ?doc ''status'' = Inr (PStr ''off'')"
    by (simp_all add: droplet_doc_def)
  have b: "is_powered_on ?p (rest_of ''tok'') (PInt 42) start = (Inr False, ?w1)"
    by (simp add: is_powered_on_def get_droplet_def get_def send_def json_def Let_def
          holder_def on_after_power_on_def ok_def droplet_doc_def start_def)
  have c: "?w2 = (if PStr ''off'' = PStr ''off'' then power_on ?p (rest_of ''tok'') (PInt 42) ?w1 else ?w1)"
    by (simp add: power_on_def post_def send_def Let_def start_def holder_def ok_def)
  have d: "fst (is_powered_on ?p (rest_of ''tok'') (PInt 42) ?w2) = Inr True"
    by (simp add: is_powered_on_def get_droplet_def get_def send_def json_def Let_def
          holder_def on_after_power_on_def ok_def droplet_doc_def start_def)
  have f0: "int_to_float 0 = Inr (real_of_int 0)" and f60: "int_to_float 60 = Inr (real_of_int 60)"
    by (simp_all add: int_to_float_def)
  have e0: "ensure_powered_on ?p (rest_of ''tok'') ?doc True 0 start = (Inl (TimeoutError (PInt 42)), ?w2)"
    by (simp add: ensure_powered_on_def int_to_float_def wait_loop.simps sleep_def time_time_def
          power_on_def post_def is_powered_on_def get_droplet_def get_def send_def json_def Let_def
          holder_def on_after_power_on_def ok_def droplet_doc_def start_def)
  have e60: "ensure_powered_on ?p (rest_of ''tok'') ?doc True 60 start
     = (Inr (), start\<lparr>clock := 20, trace := [Call GET (Droplet (PInt 42)) PNone (headers (rest_of ''tok'')),
                         Call POST (DropletActions (PInt 42)) (PDict [(''type'', PStr ''power_on'')]) (headers (rest_of ''tok'')),
                         Sleep 20,
                         Call GET (Droplet (PInt 42)) PNone (headers (rest_of ''tok''))]\<rparr>)"
    by (simp add: ensure_powered_on_def int_to_float_def wait_loop.simps sleep_def time_time_def
          power_on_def post_def is_powered_on_def get_droplet_def get_def send_def json_def Let_def
          holder_def on_after_power_on_def ok_def droplet_doc_def start_def)
  from poll_sleeps_first [where p = ?p and w = start and T = 0, OF a b c f0]
  have z: "\<exists>w'. ensure_powered_on ?p (rest_of ''tok'') ?doc True 0 start = (Inl (TimeoutError (PInt 42)), w')
           \<and> trace w' = trace ?w2"
    by simp
  have nd: "(0::int) < 60 \<and> delays start = []" by (simp add: start_def)
  from poll_sleeps_first [where p = ?p and w = start and T = 60, OF a b c f60] nd
  have "\<exists>evs. trace (snd (ensure_powered_on ?p (rest_of ''tok'') ?doc True 60 start))
             = trace ?w2 @ Sleep (min 20 (real_of_int 60)) # Call GET (Droplet (PInt 42)) PNone (headers (rest_of ''tok'')) # evs"
    by blast
  with e0 d z e60 show ?thesis by (intro conjI)
qed

text \<open>
  The claim as stated fails for a timeout below zero that does not convert to a float:
  \<^verbatim>\<open>time.time() + wait_timeout\<close> raises \<^verbatim>\<open>OverflowError\<close>, and no \<^verbatim>\<open>TimeoutError\<close>
  is raised.
\<close>

theorem huge_negative_timeout_overflows:
  "- (2 ^ 1024) \<le> (0::int)
   \<and> ensure_powered_on (holder on_after_power_on) (rest_of ''tok'') (droplet_doc 42 ''web-1'' ''off'')
        True (- (2 ^ 1024)) start
     = (Inl OverflowError, (start\<lparr>trace := [Call GET (Droplet (PInt 42)) PNone (headers (rest_of ''tok'')),
                         Call POST (DropletActions (PInt 42)) (PDict [(''type'', PStr ''power_on'')]) (headers (rest_of ''tok''))]\<rparr>))"
  by (simp add: ensure_powered_on_def int_to_float_def time_time_def power_on_def post_def
        is_powered_on_def get_droplet_def get_def send_def json_def Let_def
        holder_def on_after_power_on_def ok_def droplet_doc_def start_def)

subsection \<open>Timing out\<close>






subsection \<open>Creation, power-on and polling, in order\<close>

text \<open>
  Claim C5, as the code has it. When the lookup has returned nothing, the creation has
  returned a droplet document, and the two status fetches that follow (one in \<^verbatim>\<open>core\<close>,
  one at the start of \<^verbatim>\<open>ensure_powered_on\<close>) find the droplet not active, the events after
  the lookup are, in this order: the creation call; the two status fetches; a power-on call
  exactly when the status in the creation response is \<^verbatim>\<open>off\<close>, and no power-on call
  otherwise; then the polling, which contains no mutating call and, when it is not empty,
  begins with a sleep. So the creation call precedes any power-on call, and a power-on call
  precedes the polling.
\<close>

theorem create_power_on_poll_order:
  assumes "check_arguments ps = None"
      and "load_api_token ps environ = Inr tok"
      and "state ps = Active \<or> state ps = Present"
      and "locate p (rest_of tok) ps w = (Inr found, w1)" and "\<not> truthy found"
      and "create p (rest_of tok) ps w1 = (Inr droplet, w2)"
      and "getitem droplet ''id'' = Inr did" and "getitem droplet ''status'' = Inr st"
      and "is_powered_on p (rest_of tok) did w2 = (Inr False, w3)"
      and "is_powered_on p (rest_of tok) did w3 = (Inr False, w4)"
  shows "\<exists>evs. new_events w1 (snd (main p environ ps w))
            = [Call POST Droplets (payload ps) (headers (rest_of tok)),
               Call GET (Droplet did) PNone (headers (rest_of tok)),
               Call GET (Droplet did) PNone (headers (rest_of tok))]
              @ (if st = PStr ''off''
                 then [Call POST (DropletActions did) (PDict [(''type'', PStr ''power_on'')])
                         (headers (rest_of tok))]
                 else [])
              @ evs
          \<and> (\<forall>e\<in>set evs. \<not> mutating e)
          \<and> (evs = [] \<or> (\<exists>d evs'. evs = Sleep d # evs'))"
proof -
  let ?inst = "rest_of tok"
  let ?fetch = "Call GET (Droplet did) PNone (headers ?inst)"
  let ?pw = "[Call POST (DropletActions did) (PDict [(''type'', PStr ''power_on'')]) (headers ?inst)]"
  define w5 where "w5 = (if st = PStr ''off'' then power_on p ?inst did w4 else w4)"
  have t2: "trace w2 = trace w1 @ [Call POST Droplets (payload ps) (headers ?inst)]"
    using assms(6) by (auto simp: create_def post_def send_def Let_def split: sum.splits if_splits)
  have t3: "trace w3 = trace w2 @ [?fetch]"
    using is_powered_on_fetch [OF assms(9)] by simp
  have t4: "trace w4 = trace w3 @ [?fetch]"
    using is_powered_on_fetch [OF assms(10)] by simp
  have t5: "trace w5 = trace w4 @ (if st = PStr ''off'' then ?pw else [])"
    using power_on_step [of w4 p ?inst did] by (simp add: w5_def)
  have pre: "trace w5 = trace w1 @ [Call POST Droplets (payload ps) (headers ?inst), ?fetch, ?fetch]
               @ (if st = PStr ''off'' then ?pw else [])"
    using t2 t3 t4 t5 by simp
  obtain now wa where ta: "time_time w5 = (now, wa)" by (cases "time_time w5")
  from time_time_clock [OF ta] have tra: "trace wa = trace w5" by simp
  have en: "snd (ensure_powered_on p ?inst droplet (wait ps) (wait_timeout ps) w3)
              = (if wait ps
                 then (case int_to_float (wait_timeout ps) of
                         Inl e \<Rightarrow> wa
                       | Inr tmo \<Rightarrow> snd (wait_loop p ?inst did (now + tmo) wa))
                 else w5)"
    using assms(7,8,10) ta
    by (simp add: ensure_powered_on_def Let_def w5_def split: prod.splits sum.splits)
  have "snd (main p environ ps w) = snd (ensure_powered_on p ?inst droplet (wait ps) (wait_timeout ps) w3)"
    using assms(1-7,9)
    by (simp add: main_def core_def converge_present_def Let_def split: prod.splits sum.splits)
  with en have fin: "snd (main p environ ps w)
              = (if wait ps
                 then (case int_to_float (wait_timeout ps) of
                         Inl e \<Rightarrow> wa
                       | Inr tmo \<Rightarrow> snd (wait_loop p ?inst did (now + tmo) wa))
                 else w5)"
    by simp
  obtain evs where
    e1: "trace (snd (main p environ ps w)) = trace w5 @ evs" and
    e2: "\<forall>e\<in>set evs. \<not> mutating e" and
    e3: "evs = [] \<or> (\<exists>d evs'. evs = Sleep d # evs')"
  proof (cases "wait ps")
    case False
    then show ?thesis using that [of "[]"] fin by simp
  next
    case True
    show ?thesis
    proof (cases "int_to_float (wait_timeout ps)")
      case (Inl e)
      then show ?thesis using that [of "[]"] fin True tra by simp
    next
      case (Inr tmo)
      from wait_loop_quiet [of p ?inst did "now + tmo" wa]
      show ?thesis using that fin True Inr tra by auto
    qed
  qed
  from e1 pre have "new_events w1 (snd (main p environ ps w))
            = [Call POST Droplets (payload ps) (headers ?inst), ?fetch, ?fetch]
              @ (if st = PStr ''off'' then ?pw else []) @ evs"
    by (simp add: new_events_def)
  with e2 e3 show ?thesis by blast
qed

text \<open>
  The scenario's request on the fresh account whose creation response says \<^verbatim>\<open>off\<close>: one
  creation call, one power-on call, then a sleep and the fetch that finds the droplet active.
\<close>

theorem create_power_on_poll_order_witness:
  "main (fresh_account ''off'') Map.empty web1 start
     = (Exit True (Some (droplet_doc 7 ''web-1'' ''off'')) None,
        \<lparr>clock = 20,
         trace = [Call GET Droplets PNone (headers (rest_of ''tok'')),
                  Call POST Droplets (payload web1) (headers (rest_of ''tok'')),
                  Call GET (Droplet (PInt 7)) PNone (headers (rest_of ''tok'')),
                  Call GET (Droplet (PInt 7)) PNone (headers (rest_of ''tok'')),
                  Call POST (DropletActions (PInt 7)) (PDict [(''type'', PStr ''power_on'')]) (headers (rest_of ''tok'')),
                  Sleep 20,
                  Call GET (Droplet (PInt 7)) PNone (headers (rest_of ''tok''))],
         delays = []\<rparr>)
   \<and> (\<exists>evs. new_events (start\<lparr>trace := [Call GET Droplets PNone (headers (rest_of ''tok''))]\<rparr>)
               (snd (main (fresh_account ''off'') Map.empty web1 start))
            = [Call POST Droplets (payload web1) (headers (rest_of ''tok'')),
               Call GET (Droplet (PInt 7)) PNone (headers (rest_of ''tok'')),
               Call GET (Droplet (PInt 7)) PNone (headers (rest_of ''tok''))]
              @ (if PStr ''off'' = PStr ''off''
                 then [Call POST (DropletActions (PInt 7)) (PDict [(''type'', PStr ''power_on'')]) (headers (rest_of ''tok''))]
                 else [])
              @ evs
          \<and> (\<forall>e\<in>set evs. \<not> mutating e)
          \<and> (evs = [] \<or> (\<exists>d evs'. evs = Sleep d # evs')))"
proof -
  let ?p = "fresh_account ''off''"
  let ?doc = "droplet_doc 7 ''web-1'' ''off''"
  let ?w1 = "start\<lparr>trace := [Call GET Droplets PNone (headers (rest_of ''tok''))]\<rparr>"
  let ?w2 = "start\<lparr>trace := [Call GET Droplets PNone (headers (rest_of ''tok'')),
                  Call POST Droplets (payload web1) (headers (rest_of ''tok''))]\<rparr>"
  let ?w3 = "start\<lparr>trace := [Call GET Droplets PNone (headers (rest_of ''tok'')),
                  Call POST Droplets (payload web1) (headers (rest_of ''tok'')),
                  Call GET (Droplet (PInt 7)) PNone (headers (rest_of ''tok''))]\<rparr>"
  let ?w4 = "start\<lparr>trace := [Call GET Droplets PNone (headers (rest_of ''tok'')),
                  Call POST Droplets (payload web1) (headers (rest_of ''tok'')),
                  Call GET (Droplet (PInt 7)) PNone (headers (rest_of ''tok'')),
                  Call GET (Droplet (PInt 7)) PNone (headers (rest_of ''tok''))]\<rparr>"
  have a: "check_arguments web1 = None" "load_api_token web1 Map.empty = Inr ''tok''"
          "state web1 = Active \<or> state web1 = Present"
    by (simp_all add: check_arguments_def load_api_token_def web1_def)
  have b: "locate ?p (rest_of ''tok'') web1 start = (Inr (PBool False), ?w1)" "\<not> truthy (PBool False)"
    by (simp_all add: locate_def get_droplet_def get_def send_def opt_int_def json_def Let_def
          web1_def start_def fresh_account_def ok_def)
  have c: "create ?p (rest_of ''tok'') web1 ?w1 = (Inr ?doc, ?w2)"
    by (simp add: create_def post_def send_def json_def Let_def start_def fresh_account_def
          ok_def droplet_doc_def)
  have d: "getitem ?doc ''id'' = Inr (PInt 7)" "getitem ?doc ''status'' = Inr (PStr ''off'')"
    by (simp_all add: droplet_doc_def)
  have e: "is_powered_on ?p (rest_of ''tok'') (PInt 7) ?w2 = (Inr False, ?w3)"
          "is_powered_on ?p (rest_of ''tok'') (PInt 7) ?w3 = (Inr False, ?w4)"
    by (simp_all add: is_powered_on_def get_droplet_def get_def send_def json_def Let_def
          start_def fresh_account_def ok_def droplet_doc_def)
  have ev: "main ?p Map.empty web1 start
     = (Exit True (Some ?doc) None,
        \<lparr>clock = 20,
         trace = [Call GET Droplets PNone (headers (rest_of ''tok'')),
                  Call POST Droplets (payload web1) (headers (rest_of ''tok'')),
                  Call GET (Droplet (PInt 7)) PNone (headers (rest_of ''tok'')),
                  Call GET (Droplet (PInt 7)) PNone (headers (rest_of ''tok'')),
                  Call POST (DropletActions (PInt 7)) (PDict [(''type'', PStr ''power_on'')]) (headers (rest_of ''tok'')),
                  Sleep 20,
                  Call GET (Droplet (PInt 7)) PNone (headers (rest_of ''tok''))],
         delays = []\<rparr>)"
    by (simp add: main_def check_arguments_def core_def load_api_token_def locate_def get_droplet_def
          get_def post_def send_def opt_int_def json_def converge_present_def create_def
          is_powered_on_def ensure_powered_on_def int_to_float_def power_on_def wait_loop.simps
          sleep_def time_time_def Let_def
          web1_def start_def fresh_account_def ok_def droplet_doc_def)
  from ev create_power_on_poll_order [where p = ?p and w = start, OF a b c d e]
  show ?thesis by (rule conjI)
qed

text \<open>
  The claim as stated fails: when the creation response says \<^verbatim>\<open>new\<close>, the status a
  droplet starts with, the invocation creates the droplet and polls, and no power-on call
  is in its trace.
\<close>

theorem new_droplet_is_not_powered_on:
  "main (fresh_account ''new'') Map.empty web1 start
     = (Exit True (Some (droplet_doc 7 ''web-1'' ''new'')) None,
        \<lparr>clock = 20,
         trace = [Call GET Droplets PNone (headers (rest_of ''tok'')),
                  Call POST Droplets (payload web1) (headers (rest_of ''tok'')),
                  Call GET (Droplet (PInt 7)) PNone (headers (rest_of ''tok'')),
                  Call GET (Droplet (PInt 7)) PNone (headers (rest_of ''tok'')),
                  Sleep 20,
                  Call GET (Droplet (PInt 7)) PNone (headers (rest_of ''tok''))],
         delays = []\<rparr>)
   \<and> \<not> list_ex is_power_on (trace (snd (main (fresh_account ''new'') Map.empty web1 start)))"
proof -
  have ev: "main (fresh_account ''new'') Map.empty web1 start
     = (Exit True (Some (droplet_doc 7 ''web-1'' ''new'')) None,
        \<lparr>clock = 20,
         trace = [Call GET Droplets PNone (headers (rest_of ''tok'')),
                  Call POST Droplets (payload web1) (headers (rest_of ''tok'')),
                  Call GET (Droplet (PInt 7)) PNone (headers (rest_of ''tok'')),
                  Call GET (Droplet (PInt 7)) PNone (headers (rest_of ''tok'')),
                  Sleep 20,
                  Call GET (Droplet (PInt 7)) PNone (headers (rest_of ''tok''))],
         delays = []\<rparr>)"
    by (simp add: main_def check_arguments_def core_def load_api_token_def locate_def get_droplet_def
          get_def post_def send_def opt_int_def json_def converge_present_def create_def
          is_powered_on_def ensure_powered_on_def int_to_float_def power_on_def wait_loop.simps
          sleep_def time_time_def Let_def
          web1_def start_def fresh_account_def ok_def droplet_doc_def)
  then show ?thesis by simp
qed

subsection \<open>Running twice\<close>

text \<open>
  A call of \<^verbatim>\<open>ensure_powered_on\<close> that waits and returns normally has ended in a status
  fetch that reported active, and such a fetch is the provider's last answer.
\<close>

lemma wait_loop_true:
  "wait_loop p inst did end_time w = (Inr True, wz)
   \<Longrightarrow> \<exists>w'. is_powered_on p inst did w' = (Inr True, wz)"
proof (induction p inst did end_time w rule: wait_loop.induct)
  case (1 p inst did end_time w)
  obtain now wa where ta: "time_time w = (now, wa)" by (cases "time_time w")
  show ?case
  proof (cases "now < end_time")
    case False
    with "1.prems" ta show ?thesis by (subst (asm) wait_loop.simps) simp
  next
    case True
    obtain now' wb where tb: "time_time wa = (now', wb)" by (cases "time_time wa")
    obtain rs wc where sl: "sleep (min 20 (end_time - now')) wb = (rs, wc)"
      by (cases "sleep (min 20 (end_time - now')) wb")
    show ?thesis
    proof (cases rs)
      case (Inl e)
      with "1.prems" ta True tb sl show ?thesis by (subst (asm) wait_loop.simps) simp
    next
      case rs: (Inr u)
      obtain r w1 where ip: "is_powered_on p inst did wc = (r, w1)"
        by (cases "is_powered_on p inst did wc")
      show ?thesis
      proof (cases r)
        case (Inl e)
        with "1.prems" ta True tb sl rs ip show ?thesis by (subst (asm) wait_loop.simps) simp
      next
        case (Inr b)
        show ?thesis
        proof (cases b)
          case True
          with "1.prems" ta \<open>now < end_time\<close> tb sl rs ip Inr have "wz = w1"
            by (subst (asm) wait_loop.simps) simp
          with ip Inr True have "is_powered_on p inst did wc = (Inr True, wz)" by simp
          then show ?thesis by blast
        next
          case False
          with "1.prems" ta \<open>now < end_time\<close> tb sl rs ip Inr
          have "wait_loop p inst did end_time w1 = (Inr True, wz)"
            by (subst (asm) wait_loop.simps) simp
          from "1.IH" [OF ta [symmetric] \<open>now < end_time\<close> tb [symmetric] sl [symmetric] rs
                          ip [symmetric] Inr False this]
          show ?thesis .
        qed
      qed
    qed
  qed
qed

lemma ensure_powered_on_waited:
  assumes "ensure_powered_on p inst droplet True T w = (Inr u, wz)"
  shows "\<exists>did w'. getitem droplet ''id'' = Inr did \<and> is_powered_on p inst did w' = (Inr True, wz)"
proof -
  from assms obtain did where did: "getitem droplet ''id'' = Inr did"
    by (cases "getitem droplet ''id''") (auto simp: ensure_powered_on_def)
  obtain r w1 where ip: "is_powered_on p inst did w = (r, w1)"
    by (cases "is_powered_on p inst did w")
  show ?thesis
  proof (cases "r = Inr True")
    case True
    with assms did ip have "wz = w1" by (simp add: ensure_powered_on_def)
    with ip True have "is_powered_on p inst did w = (Inr True, wz)" by simp
    with did show ?thesis by blast
  next
    case False
    with assms did ip obtain e w2 where "wait_loop p inst did e w2 = (Inr True, wz)"
      by (auto simp: ensure_powered_on_def Let_def split: sum.splits prod.splits if_splits bool.splits)
    from wait_loop_true [OF this] did show ?thesis by blast
  qed
qed

lemma is_powered_on_answer:
  assumes "is_powered_on p inst did w = (Inr b, w')"
  shows "\<exists>j res s. trace w' = trace w @ [Call GET (Droplet did) PNone (headers inst)]
           \<and> json (p (trace w') (clock w')) = Inr j
           \<and> getitem j ''droplet'' = Inr res
           \<and> getitem res ''status'' = Inr s
           \<and> b = (s = PStr ''active'')"
  using assms
  by (auto simp: is_powered_on_def get_droplet_def get_def send_def Let_def
           split: if_splits prod.splits sum.splits option.splits)

lemma getitem_truthy: "getitem v k = Inr x \<Longrightarrow> truthy v"
  by (cases v) (auto split: option.splits)

text \<open>
  Claim C1, as the code has it. Take a request that passes the argument check, with
  desired state \<^verbatim>\<open>present\<close> or \<^verbatim>\<open>active\<close>, \<^verbatim>\<open>wait\<close> set and a non-zero identifier \<open>i\<close>,
  and a first invocation that ended with \<^verbatim>\<open>changed=True\<close> and a droplet whose id is \<open>i\<close>.
  Let the document fetched last in that invocation carry the id \<open>i\<close>, and let the provider
  answer the fetches of \<open>i\<close> that follow, whenever they complete, with the document it
  answered that last one with (nothing else touches the droplet in between). Then the
  second invocation, run in the world the first one left, ends with \<^verbatim>\<open>changed=False\<close> and
  a droplet of the same id, and every call it issues is a \<^verbatim>\<open>GET\<close>. That the droplet is
  active at the second invocation is not assumed: it follows from the first invocation
  having waited successfully.
\<close>

theorem second_invocation_is_noop:
  assumes chk: "check_arguments ps = None"
      and tok: "load_api_token ps environ = Inr tok"
      and st: "state ps = Active \<or> state ps = Present"
      and id: "droplet_id ps = Some i" and nz: "i \<noteq> 0"
      and wt: "wait ps"
      and first: "main p environ ps w = (Exit True (Some d1) m1, w1)"
      and same: "getitem d1 ''id'' = Inr (PInt i)"
      and doc: "\<forall>j res. json (p (trace w1) (clock w1)) = Inr j
                  \<longrightarrow> getitem j ''droplet'' = Inr res \<longrightarrow> getitem res ''id'' = Inr (PInt i)"
      and stable: "\<forall>h t. set h \<subseteq> {Call GET (Droplet (PInt i)) PNone (headers (rest_of tok))}
                  \<longrightarrow> clock w1 \<le> t
                  \<longrightarrow> json (p (trace w1 @ h @ [Call GET (Droplet (PInt i)) PNone (headers (rest_of tok))]) t)
                      = json (p (trace w1) (clock w1))"
  shows "\<exists>d2 w2. main p environ ps w1 = (Exit False (Some d2) None, w2)
            \<and> getitem d2 ''id'' = getitem d1 ''id''
            \<and> (\<forall>e\<in>set (new_events w1 w2). \<not> mutating e)"
proof -
  let ?inst = "rest_of tok"
  let ?fetch = "Call GET (Droplet (PInt i)) PNone (headers ?inst)"
  \<comment> \<open>the first invocation ended in a status fetch that reported active\<close>
  from first tok chk obtain found wa where
    cp: "converge_present p ?inst ps found wa = (Inr (Exit True (Some d1) m1), w1)"
    using st by (auto simp: main_def core_def Let_def split: prod.splits sum.splits)
  then obtain w3 u where "ensure_powered_on p ?inst d1 (wait ps) (wait_timeout ps) w3 = (Inr u, w1)"
    by (auto simp: converge_present_def split: prod.splits sum.splits if_splits)
  with wt have "ensure_powered_on p ?inst d1 True (wait_timeout ps) w3 = (Inr u, w1)" by simp
  from ensure_powered_on_waited [OF this] same obtain w' where
    "is_powered_on p ?inst (PInt i) w' = (Inr True, w1)" by auto
  from is_powered_on_answer [OF this] obtain j res where
    j: "json (p (trace w1) (clock w1)) = Inr j" and
    res: "getitem j ''droplet'' = Inr res" and
    act: "getitem res ''status'' = Inr (PStr ''active'')"
    by auto
  from doc j res have rid: "getitem res ''id'' = Inr (PInt i)" by blast
  have tr: "truthy res" using act by (rule getitem_truthy)
  \<comment> \<open>the second invocation: two fetches, completed at \<open>ta\<close> and at \<open>tb\<close>\<close>
  define ta where "ta = clock w1 + max 0 (took (p (trace w1 @ [?fetch]) (clock w1)))"
  define tb where "tb = ta + max 0 (took (p (trace w1 @ [?fetch, ?fetch]) ta))"
  have le: "clock w1 \<le> ta" "clock w1 \<le> tb"
    by (simp_all add: ta_def tb_def add_increasing2)
  let ?wa = "w1\<lparr>clock := ta, trace := trace w1 @ [?fetch]\<rparr>"
  let ?wb = "w1\<lparr>clock := tb, trace := trace w1 @ [?fetch, ?fetch]\<rparr>"
  from stable [rule_format, of "[]" ta] le
  have s0: "json (p (trace w1 @ [?fetch]) ta) = Inr j"
    using j by simp
  from stable [rule_format, of "[?fetch]" tb] le
  have s1: "json (p (trace w1 @ [?fetch, ?fetch]) tb) = Inr j"
    using j by simp
  have g: "get_droplet p ?inst (PInt i) None w1 = (Inr res, ?wa)"
    using nz s0 res by (simp add: get_droplet_def get_def send_def Let_def ta_def)
  have loc: "locate p ?inst ps w1 = (Inr res, ?wa)"
    using g id tr by (simp add: locate_def opt_int_def)
  have g2: "get_droplet p ?inst (PInt i) None ?wa = (Inr res, ?wb)"
    using nz s1 res by (simp add: get_droplet_def get_def send_def Let_def tb_def)
  have on: "is_powered_on p ?inst (PInt i) ?wa = (Inr True, ?wb)"
    using g2 act by (simp add: is_powered_on_def)
  have "converge_present p ?inst ps res ?wa = (Inr (Exit False (Some res) None), ?wb)"
    using tr rid on by (simp add: converge_present_def)
  with tok st loc chk have "main p environ ps w1 = (Exit False (Some res) None, ?wb)"
    by (simp add: main_def core_def Let_def)
  moreover have "getitem res ''id'' = getitem d1 ''id''" using rid same by simp
  moreover have "\<forall>e\<in>set (new_events w1 ?wb). \<not> mutating e"
    by (simp add: new_events_def)
  ultimately show ?thesis by blast
qed

text \<open>
  Droplet 42 is off and is active 30 seconds after a power-on call. The first invocation
  powers it on and polls until 40 seconds; the second one fetches twice and reports no
  change.
\<close>

theorem second_invocation_is_noop_witness:
  "main (holder boots_by_30) Map.empty (web1\<lparr>droplet_id := Some 42\<rparr>) start
     = (Exit True (Some (droplet_doc 42 ''web-1'' ''off'')) None,
        \<lparr>clock = 40,
         trace = [Call GET (Droplet (PInt 42)) PNone (headers (rest_of ''tok'')),
                  Call GET (Droplet (PInt 42)) PNone (headers (rest_of ''tok'')),
                  Call GET (Droplet (PInt 42)) PNone (headers (rest_of ''tok'')),
                  Call POST (DropletActions (PInt 42)) (PDict [(''type'', PStr ''power_on'')]) (headers (rest_of ''tok'')),
                  Sleep 20,
                  Call GET (Droplet (PInt 42)) PNone (headers (rest_of ''tok'')),
                  Sleep 20,
                  Call GET (Droplet (PInt 42)) PNone (headers (rest_of ''tok''))],
         delays = []\<rparr>)
   \<and> main (holder boots_by_30) Map.empty (web1\<lparr>droplet_id := Some 42\<rparr>)
       \<lparr>clock = 40,
        trace = [Call GET (Droplet (PInt 42)) PNone (headers (rest_of ''tok'')),
                 Call GET (Droplet (PInt 42)) PNone (headers (rest_of ''tok'')),
                 Call GET (Droplet (PInt 42)) PNone (headers (rest_of ''tok'')),
                 Call POST (DropletActions (PInt 42)) (PDict [(''type'', PStr ''power_on'')]) (headers (rest_of ''tok'')),
                 Sleep 20,
                 Call GET (Droplet (PInt 42)) PNone (headers (rest_of ''tok'')),
                 Sleep 20,
                 Call GET (Droplet (PInt 42)) PNone (headers (rest_of ''tok''))],
         delays = []\<rparr>
     = (Exit False (Some (droplet_doc 42 ''web-1'' ''active'')) None,
        \<lparr>clock = 40,
         trace = [Call GET (Droplet (PInt 42)) PNone (headers (rest_of ''tok'')),
                  Call GET (Droplet (PInt 42)) PNone (headers (rest_of ''tok'')),
                  Call GET (Droplet (PInt 42)) PNone (headers (rest_of ''tok'')),
                  Call POST (DropletActions (PInt 42)) (PDict [(''type'', PStr ''power_on'')]) (headers (rest_of ''tok'')),
                  Sleep 20,
                  Call GET (Droplet (PInt 42)) PNone (headers (rest_of ''tok'')),
                  Sleep 20,
                  Call GET (Droplet (PInt 42)) PNone (headers (rest_of ''tok'')),
                  Call GET (Droplet (PInt 42)) PNone (headers (rest_of ''tok'')),
                  Call GET (Droplet (PInt 42)) PNone (headers (rest_of ''tok''))],
         delays = []\<rparr>)
   \<and> (\<exists>d2 w2. main (holder boots_by_30) Map.empty (web1\<lparr>droplet_id := Some 42\<rparr>)
                 \<lparr>clock = 40,
                  trace = [Call GET (Droplet (PInt 42)) PNone (headers (rest_of ''tok'')),
                           Call GET (Droplet (PInt 42)) PNone (headers (rest_of ''tok'')),
                           Call GET (Droplet (PInt 42)) PNone (headers (rest_of ''tok'')),
                           Call POST (DropletActions (PInt 42)) (PDict [(''type'', PStr ''power_on'')]) (headers (rest_of ''tok'')),
                           Sleep 20,
                           Call GET (Droplet (PInt 42)) PNone (headers (rest_of ''tok'')),
                           Sleep 20,
                           Call GET (Droplet (PInt 42)) PNone (headers (rest_of ''tok''))],
         delays = []\<rparr>
                 = (Exit False (Some d2) None, w2)
            \<and> getitem d2 ''id'' = getitem (droplet_doc 42 ''web-1'' ''off'') ''id''
            \<and> (\<forall>e\<in>set (new_events
                           \<lparr>clock = 40,
                            trace = [Call GET (Droplet (PInt 42)) PNone (headers (rest_of ''tok'')),
                                     Call GET (Droplet (PInt 42)) PNone (headers (rest_of ''tok'')),
                                     Call GET (Droplet (PInt 42)) PNone (headers (rest_of ''tok'')),
                                     Call POST (DropletActions (PInt 42)) (PDict [(''type'', PStr ''power_on'')]) (headers (rest_of ''tok'')),
                                     Sleep 20,
                                     Call GET (Droplet (PInt 42)) PNone (headers (rest_of ''tok'')),
                                     Sleep 20,
                                     Call GET (Droplet (PInt 42)) PNone (headers (rest_of ''tok''))],
         delays = []\<rparr> w2).
                  \<not> mutating e))"
proof -
  let ?p = "holder boots_by_30"
  let ?ps = "web1\<lparr>droplet_id := Some 42\<rparr>"
  let ?w1 = "\<lparr>clock = 40,
              trace = [Call GET (Droplet (PInt 42)) PNone (headers (rest_of ''tok'')),
                       Call GET (Droplet (PInt 42)) PNone (headers (rest_of ''tok'')),
                       Call GET (Droplet (PInt 42)) PNone (headers (rest_of ''tok'')),
                       Call POST (DropletActions (PInt 42)) (PDict [(''type'', PStr ''power_on'')]) (headers (rest_of ''tok'')),
                       Sleep 20,
                       Call GET (Droplet (PInt 42)) PNone (headers (rest_of ''tok'')),
                       Sleep 20,
                       Call GET (Droplet (PInt 42)) PNone (headers (rest_of ''tok''))],
         delays = []\<rparr>"
  have a: "check_arguments ?ps = None" "load_api_token ?ps Map.empty = Inr ''tok''"
          "state ?ps = Active \<or> state ?ps = Present"
          "droplet_id ?ps = Some 42" "(42::int) \<noteq> 0" "wait ?ps"
    by (simp_all add: check_arguments_def load_api_token_def web1_def)
  have ev1: "main ?p Map.empty ?ps start = (Exit True (Some (droplet_doc 42 ''web-1'' ''off'')) None, ?w1)"
    by (simp add: main_def check_arguments_def core_def load_api_token_def locate_def get_droplet_def
          get_def post_def send_def opt_int_def json_def converge_present_def is_powered_on_def
          ensure_powered_on_def int_to_float_def power_on_def wait_loop.simps sleep_def
          time_time_def Let_def new_events_def
          web1_def start_def holder_def boots_by_30_def ok_def droplet_doc_def)
  have ev2: "main ?p Map.empty ?ps ?w1
               = (Exit False (Some (droplet_doc 42 ''web-1'' ''active'')) None,
                  \<lparr>clock = 40,
                   trace = [Call GET (Droplet (PInt 42)) PNone (headers (rest_of ''tok'')),
                            Call GET (Droplet (PInt 42)) PNone (headers (rest_of ''tok'')),
                            Call GET (Droplet (PInt 42)) PNone (headers (rest_of ''tok'')),
                            Call POST (DropletActions (PInt 42)) (PDict [(''type'', PStr ''power_on'')]) (headers (rest_of ''tok'')),
                            Sleep 20,
                            Call GET (Droplet (PInt 42)) PNone (headers (rest_of ''tok'')),
                            Sleep 20,
                            Call GET (Droplet (PInt 42)) PNone (headers (rest_of ''tok'')),
                            Call GET (Droplet (PInt 42)) PNone (headers (rest_of ''tok'')),
                            Call GET (Droplet (PInt 42)) PNone (headers (rest_of ''tok''))],
         delays = []\<rparr>)"
    by (simp add: main_def check_arguments_def core_def load_api_token_def locate_def get_droplet_def
          get_def post_def send_def opt_int_def json_def converge_present_def is_powered_on_def
          ensure_powered_on_def int_to_float_def power_on_def wait_loop.simps sleep_def
          time_time_def Let_def new_events_def
          web1_def start_def holder_def boots_by_30_def ok_def droplet_doc_def)
  have same: "getitem (droplet_doc 42 ''web-1'' ''off'') ''id'' = Inr (PInt 42)"
    by (simp add: droplet_doc_def)
  have doc: "\<forall>j res. json (?p (trace ?w1) (clock ?w1)) = Inr j
                  \<longrightarrow> getitem j ''droplet'' = Inr res \<longrightarrow> getitem res ''id'' = Inr (PInt 42)"
    by (auto simp: holder_def boots_by_30_def ok_def json_def droplet_doc_def)
  have stable: "\<forall>h t. set h \<subseteq> {Call GET (Droplet (PInt 42)) PNone (headers (rest_of ''tok''))}
                  \<longrightarrow> clock ?w1 \<le> t
                  \<longrightarrow> json (?p (trace ?w1 @ h @ [Call GET (Droplet (PInt 42)) PNone (headers (rest_of ''tok''))]) t)
                      = json (?p (trace ?w1) (clock ?w1))"
    by (simp add: holder_def boots_by_30_def)
  from ev1 ev2 second_invocation_is_noop [where p = ?p and w = start, OF a ev1 same doc stable]
  show ?thesis by (intro conjI)
qed

text \<open>
  The claim as stated fails. Without \<^verbatim>\<open>wait\<close>, the first invocation returns right after
  the power-on call, the second one finds the droplet still off, reports
  \<^verbatim>\<open>changed=True\<close> again and issues a second power-on call. And on a droplet that is
  active already, the first invocation reports \<^verbatim>\<open>changed=False\<close>.
\<close>

theorem second_invocation_changes_again:
  "main (holder boots_by_30) Map.empty (web1\<lparr>droplet_id := Some 42, wait := False\<rparr>) start
     = (Exit True (Some (droplet_doc 42 ''web-1'' ''off'')) None,
        \<lparr>clock = 0,
         trace = [Call GET (Droplet (PInt 42)) PNone (headers (rest_of ''tok'')),
                  Call GET (Droplet (PInt 42)) PNone (headers (rest_of ''tok'')),
                  Call GET (Droplet (PInt 42)) PNone (headers (rest_of ''tok'')),
                  Call POST (DropletActions (PInt 42)) (PDict [(''type'', PStr ''power_on'')]) (headers (rest_of ''tok''))],
         delays = []\<rparr>)
   \<and> main (holder boots_by_30) Map.empty (web1\<lparr>droplet_id := Some 42, wait := False\<rparr>)
       \<lparr>clock = 0,
        trace = [Call GET (Droplet (PInt 42)) PNone (headers (rest_of ''tok'')),
                 Call GET (Droplet (PInt 42)) PNone (headers (rest_of ''tok'')),
                 Call GET (Droplet (PInt 42)) PNone (headers (rest_of ''tok'')),
                 Call POST (DropletActions (PInt 42)) (PDict [(''type'', PStr ''power_on'')]) (headers (rest_of ''tok''))],
         delays = []\<rparr>
     = (Exit True (Some (droplet_doc 42 ''web-1'' ''off'')) None,
        \<lparr>clock = 0,
         trace = [Call GET (Droplet (PInt 42)) PNone (headers (rest_of ''tok'')),
                  Call GET (Droplet (PInt 42)) PNone (headers (rest_of ''tok'')),
                  Call GET (Droplet (PInt 42)) PNone (headers (rest_of ''tok'')),
                  Call POST (DropletActions (PInt 42)) (PDict [(''type'', PStr ''power_on'')]) (headers (rest_of ''tok'')),
                  Call GET (Droplet (PInt 42)) PNone (headers (rest_of ''tok'')),
                  Call GET (Droplet (PInt 42)) PNone (headers (rest_of ''tok'')),
                  Call GET (Droplet (PInt 42)) PNone (headers (rest_of ''tok'')),
                  Call POST (DropletActions (PInt 42)) (PDict [(''type'', PStr ''power_on'')]) (headers (rest_of ''tok''))],
         delays = []\<rparr>)
   \<and> list_ex mutating
       (new_events
          \<lparr>clock = 0,
           trace = [Call GET (Droplet (PInt 42)) PNone (headers (rest_of ''tok'')),
                    Call GET (Droplet (PInt 42)) PNone (headers (rest_of ''tok'')),
                    Call GET (Droplet (PInt 42)) PNone (headers (rest_of ''tok'')),
                    Call POST (DropletActions (PInt 42)) (PDict [(''type'', PStr ''power_on'')]) (headers (rest_of ''tok''))],
         delays = []\<rparr>
          \<lparr>clock = 0,
           trace = [Call GET (Droplet (PInt 42)) PNone (headers (rest_of ''tok'')),
                    Call GET (Droplet (PInt 42)) PNone (headers (rest_of ''tok'')),
                    Call GET (Droplet (PInt 42)) PNone (headers (rest_of ''tok'')),
                    Call POST (DropletActions (PInt 42)) (PDict [(''type'', PStr ''power_on'')]) (headers (rest_of ''tok'')),
                    Call GET (Droplet (PInt 42)) PNone (headers (rest_of ''tok'')),
                    Call GET (Droplet (PInt 42)) PNone (headers (rest_of ''tok'')),
                    Call GET (Droplet (PInt 42)) PNone (headers (rest_of ''tok'')),
                    Call POST (DropletActions (PInt 42)) (PDict [(''type'', PStr ''power_on'')]) (headers (rest_of ''tok''))],
         delays = []\<rparr>)
   \<and> fst (main (holder (\<lambda>h t. ''active'')) Map.empty (web1\<lparr>droplet_id := Some 42\<rparr>) start)
     = Exit False (Some (droplet_doc 42 ''web-1'' ''active'')) None"
  by (simp add: main_def check_arguments_def core_def load_api_token_def locate_def get_droplet_def
          get_def post_def send_def opt_int_def json_def converge_present_def is_powered_on_def
          ensure_powered_on_def int_to_float_def power_on_def wait_loop.simps sleep_def
          time_time_def Let_def new_events_def
          web1_def start_def holder_def boots_by_30_def ok_def droplet_doc_def)

end
